theory Spec2Isabelle
  imports
    Main
    "HOL-Library.AList"
    "HOL-Library.Sublist"
    "HOL-Library.Char_ord"
    "HOL-Library.List_Lexorder"
begin

section \<open>Python values, strings and exceptions\<close>

text \<open>
  The repository is a Python program. A Python \<open>str\<close> is a \<open>string\<close> (a list of
  characters), an \<open>Optional[t]\<close> is a \<open>t option\<close>, a \<open>dict\<close> with string keys is an
  association list in insertion order, read with \<open>map_of\<close> and written with
  \<open>AList.update\<close> (which keeps the position of a key that is already there, as an
  assignment \<open>d[k] = v\<close> does).

  The type \<open>datetime\<close> belongs to the standard library; it is the type parameter
  \<open>'dt\<close> throughout, and the two library functions \<open>datetime.isoformat\<close> and
  \<open>datetime.fromisoformat\<close> are parameters of the functions that call them.

  The message literals of the source are Chinese text. Each one is a named constant
  here whose value is an ASCII gloss of the literal; the theorems below speak about
  the constants. The messages of the exceptions that Python itself raises are named
  constants in the same way.
\<close>

text \<open>
  The exceptions that a handler \<open>except Exception\<close> catches, each with its message.
\<close>

datatype exn =
    ValueError string
  | TypeError string
  | AttributeError string
  | Exception string

text \<open>\<open>str(e)\<close> of an exception is its message.\<close>

fun str_exn :: "exn \<Rightarrow> string" where
  "str_exn (ValueError m) = m"
| "str_exn (TypeError m) = m"
| "str_exn (AttributeError m) = m"
| "str_exn (Exception m) = m"

text \<open>
  \<open>str.strip()\<close> removes the whitespace characters at both ends. The whitespace
  characters below are those of the code points up to 255 for which \<open>str.isspace\<close>
  holds.
\<close>

definition isspace :: "char \<Rightarrow> bool" where
  "isspace c \<longleftrightarrow> c \<in> set [CHR 0x09, CHR 0x0A, CHR 0x0B, CHR 0x0C, CHR 0x0D,
     CHR 0x1C, CHR 0x1D, CHR 0x1E, CHR 0x1F, CHR 0x20, CHR 0x85, CHR 0xA0]"

definition strip :: "string \<Rightarrow> string" where
  "strip s = rev (dropWhile isspace (rev (dropWhile isspace s)))"

text \<open>\<open>s.startswith(("http://", "https://"))\<close>\<close>

definition startswith_http :: "string \<Rightarrow> bool" where
  "startswith_http s \<longleftrightarrow> prefix ''http://'' s \<or> prefix ''https://'' s"

text \<open>The enum \<open>CategoryType\<close> of config\_manager.py.\<close>

datatype CategoryType = PODCAST | VIDEO | NEWS

section \<open>config\_manager.py\<close>

fun CategoryType_value :: "CategoryType \<Rightarrow> string" where
  "CategoryType_value PODCAST = ''Podcast''"
| "CategoryType_value VIDEO = ''Video''"
| "CategoryType_value NEWS = ''News''"

definition msg_not_a_category :: "string \<Rightarrow> string" where
  "msg_not_a_category s = s @ '' is not a valid CategoryType''"

text \<open>\<open>CategoryType(s)\<close>: the member whose value is \<open>s\<close>, or \<open>ValueError\<close>.\<close>

definition CategoryType_call :: "string \<Rightarrow> exn + CategoryType" where
  "CategoryType_call s =
     (if s = ''Podcast'' then Inr PODCAST
      else if s = ''Video'' then Inr VIDEO
      else if s = ''News'' then Inr NEWS
      else Inl (ValueError (msg_not_a_category s)))"

record Author =
  name :: string
  url :: string
  category :: CategoryType
  enabled :: bool

section \<open>content\_model.py\<close>

subsection \<open>ContentItem\<close>

text \<open>
  The dataclass \<open>ContentItem\<close>. Its \<open>category\<close> field is annotated with the enum,
  but the constructor also takes a string, which \<open>__post_init__\<close> turns into the enum:
  the record is polymorphic in the type of that one field, \<open>category_arg\<close> for the
  arguments of the constructor and \<open>CategoryType\<close> for a constructed item.
\<close>

datatype category_arg = CatEnum CategoryType | CatStr string

record ('c, 'dt) ContentItem_rec =
  title :: string
  url :: string
  author_name :: string
  author_url :: string
  category :: 'c
  description :: string
  publish_date :: "'dt option"
  thumbnail_url :: "string option"
  cover_image_url :: "string option"
  images :: "string list"
  duration :: "string option"
  views :: "int option"
  tags :: "string list"
  collected_at :: 'dt
  content_id :: "string option"

type_synonym 'dt ContentItem = "(CategoryType, 'dt) ContentItem_rec"
type_synonym 'dt ContentItem_args = "(category_arg, 'dt) ContentItem_rec"

text \<open>
  The values that a dictionary or a keyword argument of the program holds: JSON
  values, and, before serialization or after deserialization, enum members,
  datetimes and \<open>ContentItem\<close> objects.
\<close>

datatype 'dt pyval =
    PNone
  | PBool bool
  | PInt int
  | PStr string
  | PEnum CategoryType
  | PDatetime 'dt
  | PItem "(CategoryType, 'dt) ContentItem_rec"
  | PList "'dt pyval list"
  | PDict "(string \<times> 'dt pyval) list"

type_synonym 'dt pydict = "(string \<times> 'dt pyval) list"

definition with_category :: "('c, 'dt) ContentItem_rec \<Rightarrow> 'd \<Rightarrow> ('d, 'dt) ContentItem_rec" where
  "with_category self c =
     \<lparr>title = title self, url = ContentItem_rec.url self, author_name = author_name self,
      author_url = author_url self, category = c, description = description self,
      publish_date = publish_date self, thumbnail_url = thumbnail_url self,
      cover_image_url = cover_image_url self, images = images self,
      duration = duration self, views = views self, tags = tags self,
      collected_at = collected_at self, content_id = content_id self\<rparr>"

text \<open>The three messages of \<open>__post_init__\<close> (lines 43, 45 and 47).\<close>

definition msg_title_empty :: string where
  "msg_title_empty = ''title must not be empty''"

definition msg_invalid_content_url :: "string \<Rightarrow> string" where
  "msg_invalid_content_url u = ''invalid content URL: '' @ u"

definition msg_author_name_empty :: string where
  "msg_author_name_empty = ''author name must not be empty''"

text \<open>
  \<open>__post_init__\<close> (lines 40 to 51). \<open>not s or not s.strip()\<close> is
  \<open>s = [] \<or> strip s = []\<close>.
\<close>

definition post_init :: "'dt ContentItem_args \<Rightarrow> exn + 'dt ContentItem" where
  "post_init self =
     (if title self = [] \<or> strip (title self) = [] then
        Inl (ValueError msg_title_empty)
      else if ContentItem_rec.url self = [] \<or> \<not> startswith_http (ContentItem_rec.url self) then
        Inl (ValueError (msg_invalid_content_url (ContentItem_rec.url self)))
      else if author_name self = [] \<or> strip (author_name self) = [] then
        Inl (ValueError msg_author_name_empty)
      else
        (case ContentItem_rec.category self of
           CatStr s \<Rightarrow>
             (case CategoryType_call s of
                Inl e \<Rightarrow> Inl e
              | Inr c \<Rightarrow> Inr (with_category self c))
         | CatEnum c \<Rightarrow> Inr (with_category self c)))"

text \<open>
  The invariants of a constructed item, as \<open>__post_init__\<close> checks them: a title and
  an author name that are not blank, and a URL that starts with \<open>http://\<close> or
  \<open>https://\<close>.
\<close>

definition valid_ContentItem :: "'dt ContentItem \<Rightarrow> bool" where
  "valid_ContentItem x \<longleftrightarrow>
     strip (title x) \<noteq> [] \<and> startswith_http (ContentItem_rec.url x) \<and>
     strip (ContentItem_rec.author_name x) \<noteq> []"

subsection \<open>Calling a dataclass constructor with keyword arguments\<close>

text \<open>
  \<open>cls(**data)\<close> binds the keys of \<open>data\<close> to the parameters of the generated
  \<open>__init__\<close>: a key that is no parameter is a \<open>TypeError\<close>, and so is a parameter
  without default that has no key.
\<close>

definition msg_unexpected_keyword :: "string \<Rightarrow> string" where
  "msg_unexpected_keyword k = ''__init__() got an unexpected keyword argument '' @ k"

definition msg_missing_arguments :: "string list \<Rightarrow> string" where
  "msg_missing_arguments ks = ''__init__() missing required arguments: '' @ concat ks"

definition bind_kwargs :: "string list \<Rightarrow> string list \<Rightarrow> 'dt pydict \<Rightarrow> exn + 'dt pydict" where
  "bind_kwargs params required kw =
     (case filter (\<lambda>k. k \<notin> set params) (map fst kw) of
        k # _ \<Rightarrow> Inl (TypeError (msg_unexpected_keyword k))
      | [] \<Rightarrow>
          (case filter (\<lambda>k. map_of kw k = None) required of
             m # ms \<Rightarrow> Inl (TypeError (msg_missing_arguments (m # ms)))
           | [] \<Rightarrow> Inr kw))"

text \<open>
  Python does not check a value against the annotation of its field: the generated
  constructor stores whatever it is given. The records of this model are typed by the
  annotations, so a bound argument is read at the annotated type, and a value of
  another type has no counterpart in the model: the reading is \<open>None\<close>, and a
  constructor call with such an argument is \<open>None\<close> as a whole, which says that the
  model does not describe that call (it does not say that Python raises).
\<close>

fun as_str :: "'dt pyval \<Rightarrow> string option" where
  "as_str (PStr s) = Some s"
| "as_str _ = None"

fun as_opt_str :: "'dt pyval \<Rightarrow> string option option" where
  "as_opt_str PNone = Some None"
| "as_opt_str (PStr s) = Some (Some s)"
| "as_opt_str _ = None"

fun as_opt_int :: "'dt pyval \<Rightarrow> int option option" where
  "as_opt_int PNone = Some None"
| "as_opt_int (PInt n) = Some (Some n)"
| "as_opt_int _ = None"

fun as_bool :: "'dt pyval \<Rightarrow> bool option" where
  "as_bool (PBool b) = Some b"
| "as_bool _ = None"

fun as_datetime :: "'dt pyval \<Rightarrow> 'dt option" where
  "as_datetime (PDatetime d) = Some d"
| "as_datetime _ = None"

fun as_opt_datetime :: "'dt pyval \<Rightarrow> 'dt option option" where
  "as_opt_datetime PNone = Some None"
| "as_opt_datetime (PDatetime d) = Some (Some d)"
| "as_opt_datetime _ = None"

fun as_category :: "'dt pyval \<Rightarrow> category_arg option" where
  "as_category (PEnum c) = Some (CatEnum c)"
| "as_category (PStr s) = Some (CatStr s)"
| "as_category _ = None"

fun as_enum :: "'dt pyval \<Rightarrow> CategoryType option" where
  "as_enum (PEnum c) = Some c"
| "as_enum _ = None"

fun as_item :: "'dt pyval \<Rightarrow> 'dt ContentItem option" where
  "as_item (PItem x) = Some x"
| "as_item _ = None"

fun all_some :: "'a option list \<Rightarrow> 'a list option" where
  "all_some [] = Some []"
| "all_some (None # _) = None"
| "all_some (Some x # xs) = (case all_some xs of None \<Rightarrow> None | Some ys \<Rightarrow> Some (x # ys))"

fun as_str_list :: "'dt pyval \<Rightarrow> string list option" where
  "as_str_list (PList vs) = all_some (map as_str vs)"
| "as_str_list _ = None"

fun as_item_list :: "'dt pyval \<Rightarrow> 'dt ContentItem list option" where
  "as_item_list (PList vs) = all_some (map as_item vs)"
| "as_item_list _ = None"

text \<open>A bound argument: the value of the key, or the default of the parameter.\<close>

definition arg :: "'dt pydict \<Rightarrow> string \<Rightarrow> ('dt pyval \<Rightarrow> 'a option) \<Rightarrow> 'a option" where
  "arg kw k conv = (case map_of kw k of None \<Rightarrow> None | Some v \<Rightarrow> conv v)"

definition arg_default :: "'dt pydict \<Rightarrow> string \<Rightarrow> 'a \<Rightarrow> ('dt pyval \<Rightarrow> 'a option) \<Rightarrow> 'a option" where
  "arg_default kw k d conv = (case map_of kw k of None \<Rightarrow> Some d | Some v \<Rightarrow> conv v)"

text \<open>
  The fields of \<open>ContentItem\<close> (lines 16 to 38): the first five have no default,
  \<open>collected_at\<close> defaults to \<open>datetime.now()\<close>, the parameter \<open>now\<close>.
\<close>

definition ContentItem_fields :: "string list" where
  "ContentItem_fields =
     [''title'', ''url'', ''author_name'', ''author_url'', ''category'', ''description'',
      ''publish_date'', ''thumbnail_url'', ''cover_image_url'', ''images'', ''duration'',
      ''views'', ''tags'', ''collected_at'', ''content_id'']"

definition ContentItem_required :: "string list" where
  "ContentItem_required = [''title'', ''url'', ''author_name'', ''author_url'', ''category'']"

definition ContentItem_typed :: "'dt \<Rightarrow> 'dt pydict \<Rightarrow> 'dt ContentItem_args option" where
  "ContentItem_typed now kw =
     Option.bind (arg kw ''title'' as_str) (\<lambda>v1.
     Option.bind (arg kw ''url'' as_str) (\<lambda>v2.
     Option.bind (arg kw ''author_name'' as_str) (\<lambda>v3.
     Option.bind (arg kw ''author_url'' as_str) (\<lambda>v4.
     Option.bind (arg kw ''category'' as_category) (\<lambda>v5.
     Option.bind (arg_default kw ''description'' [] as_str) (\<lambda>v6.
     Option.bind (arg_default kw ''publish_date'' None as_opt_datetime) (\<lambda>v7.
     Option.bind (arg_default kw ''thumbnail_url'' None as_opt_str) (\<lambda>v8.
     Option.bind (arg_default kw ''cover_image_url'' None as_opt_str) (\<lambda>v9.
     Option.bind (arg_default kw ''images'' [] as_str_list) (\<lambda>v10.
     Option.bind (arg_default kw ''duration'' None as_opt_str) (\<lambda>v11.
     Option.bind (arg_default kw ''views'' None as_opt_int) (\<lambda>v12.
     Option.bind (arg_default kw ''tags'' [] as_str_list) (\<lambda>v13.
     Option.bind (arg_default kw ''collected_at'' now as_datetime) (\<lambda>v14.
     Option.bind (arg_default kw ''content_id'' None as_opt_str) (\<lambda>v15.
       Some \<lparr>title = v1, url = v2, author_name = v3, author_url = v4, category = v5,
             description = v6, publish_date = v7, thumbnail_url = v8,
             cover_image_url = v9, images = v10, duration = v11, views = v12,
             tags = v13, collected_at = v14, content_id = v15\<rparr>)))))))))))))))"

text \<open>
  \<open>ContentItem(**kw)\<close>: the generated \<open>__init__\<close>, then \<open>__post_init__\<close>. The outcome
  is \<open>Some\<close> of the exception raised or of the item constructed, and \<open>None\<close> for
  arguments that are not of the annotated types.
\<close>

definition ContentItem_call :: "'dt \<Rightarrow> 'dt pydict \<Rightarrow> (exn + 'dt ContentItem) option" where
  "ContentItem_call now kw =
     (case bind_kwargs ContentItem_fields ContentItem_required kw of
        Inl e \<Rightarrow> Some (Inl e)
      | Inr bound \<Rightarrow>
          (case ContentItem_typed now bound of
             None \<Rightarrow> None
           | Some self \<Rightarrow> Some (post_init self)))"

subsection \<open>ContentItem.to\_dict and ContentItem.from\_dict\<close>

definition opt_str :: "string option \<Rightarrow> 'dt pyval" where
  "opt_str v = (case v of None \<Rightarrow> PNone | Some s \<Rightarrow> PStr s)"

definition opt_int :: "int option \<Rightarrow> 'dt pyval" where
  "opt_int v = (case v of None \<Rightarrow> PNone | Some n \<Rightarrow> PInt n)"

definition opt_datetime :: "'dt option \<Rightarrow> 'dt pyval" where
  "opt_datetime v = (case v of None \<Rightarrow> PNone | Some d \<Rightarrow> PDatetime d)"

text \<open>\<open>dataclasses.asdict\<close>: one key per field, in the order of the fields.\<close>

definition asdict :: "'dt ContentItem \<Rightarrow> 'dt pydict" where
  "asdict self =
     [(''title'', PStr (title self)),
      (''url'', PStr (ContentItem_rec.url self)),
      (''author_name'', PStr (ContentItem_rec.author_name self)),
      (''author_url'', PStr (ContentItem_rec.author_url self)),
      (''category'', PEnum (ContentItem_rec.category self)),
      (''description'', PStr (description self)),
      (''publish_date'', opt_datetime (publish_date self)),
      (''thumbnail_url'', opt_str (thumbnail_url self)),
      (''cover_image_url'', opt_str (cover_image_url self)),
      (''images'', PList (map PStr (images self))),
      (''duration'', opt_str (duration self)),
      (''views'', opt_int (views self)),
      (''tags'', PList (map PStr (tags self))),
      (''collected_at'', PDatetime (ContentItem_rec.collected_at self)),
      (''content_id'', opt_str (content_id self))]"

text \<open>
  \<open>to_dict\<close> (lines 53 to 67). A datetime is always truthy, so the test
  \<open>if self.publish_date\<close> asks whether the field is not \<open>None\<close>, and the test
  \<open>if self.collected_at\<close> always holds.
\<close>

definition to_dict :: "('dt \<Rightarrow> string) \<Rightarrow> 'dt ContentItem \<Rightarrow> 'dt pydict" where
  "to_dict isoformat self =
     (let data = asdict self;
          data = AList.update ''category'' (PStr (CategoryType_value (ContentItem_rec.category self))) data;
          data = (case publish_date self of
                    None \<Rightarrow> data
                  | Some d \<Rightarrow> AList.update ''publish_date'' (PStr (isoformat d)) data);
          data = AList.update ''collected_at'' (PStr (isoformat (ContentItem_rec.collected_at self))) data
      in data)"

text \<open>
  \<open>from_dict\<close> (lines 69 to 86): three conversions in place, each guarded by
  \<open>key in data and isinstance(data[key], str)\<close>, then the constructor.
\<close>

definition category_to_enum :: "'dt pydict \<Rightarrow> exn + 'dt pydict" where
  "category_to_enum data =
     (case map_of data ''category'' of
        Some (PStr s) \<Rightarrow>
          (case CategoryType_call s of
             Inl e \<Rightarrow> Inl e
           | Inr c \<Rightarrow> Inr (AList.update ''category'' (PEnum c) data))
      | _ \<Rightarrow> Inr data)"

definition isoformat_to_datetime :: "(string \<Rightarrow> exn + 'dt) \<Rightarrow> string \<Rightarrow> 'dt pydict \<Rightarrow> exn + 'dt pydict" where
  "isoformat_to_datetime fromisoformat k data =
     (case map_of data k of
        Some (PStr s) \<Rightarrow>
          (case fromisoformat s of
             Inl e \<Rightarrow> Inl e
           | Inr d \<Rightarrow> Inr (AList.update k (PDatetime d) data))
      | _ \<Rightarrow> Inr data)"

definition from_dict ::
  "(string \<Rightarrow> exn + 'dt) \<Rightarrow> 'dt \<Rightarrow> 'dt pydict \<Rightarrow> (exn + 'dt ContentItem) option" where
  "from_dict fromisoformat now data =
     (case category_to_enum data of
        Inl e \<Rightarrow> Some (Inl e)
      | Inr data1 \<Rightarrow>
          (case isoformat_to_datetime fromisoformat ''publish_date'' data1 of
             Inl e \<Rightarrow> Some (Inl e)
           | Inr data2 \<Rightarrow>
               (case isoformat_to_datetime fromisoformat ''collected_at'' data2 of
                  Inl e \<Rightarrow> Some (Inl e)
                | Inr data3 \<Rightarrow> ContentItem_call now data3)))"

subsection \<open>CollectionResult\<close>

record 'dt CollectionResult =
  author_name :: string
  author_url :: string
  category :: CategoryType
  success :: bool
  items :: "'dt ContentItem list"
  error_message :: "string option"
  collected_at :: 'dt

text \<open>
  The dataclass (lines 105 to 115) has no \<open>__post_init__\<close>: its generated constructor
  stores the arguments and checks nothing. \<open>items\<close> defaults to the empty list,
  \<open>error_message\<close> to \<open>None\<close> and \<open>collected_at\<close> to \<open>datetime.now()\<close>; an
  omitted argument is \<open>None\<close> here (for \<open>error_message\<close>, omitted and \<open>None\<close>
  are the same).
\<close>

definition CollectionResult_init ::
  "'dt \<Rightarrow> string \<Rightarrow> string \<Rightarrow> CategoryType \<Rightarrow> bool \<Rightarrow> 'dt ContentItem list option \<Rightarrow>
   string option \<Rightarrow> 'dt option \<Rightarrow> exn + 'dt CollectionResult" where
  "CollectionResult_init now a_name a_url cat ok its err at =
     Inr \<lparr>author_name = a_name, author_url = a_url, category = cat, success = ok,
          items = (case its of None \<Rightarrow> [] | Some xs \<Rightarrow> xs),
          error_message = err,
          collected_at = (case at of None \<Rightarrow> now | Some d \<Rightarrow> d)\<rparr>"

definition CollectionResult_fields :: "string list" where
  "CollectionResult_fields =
     [''author_name'', ''author_url'', ''category'', ''success'', ''items'',
      ''error_message'', ''collected_at'']"

definition CollectionResult_required :: "string list" where
  "CollectionResult_required = [''author_name'', ''author_url'', ''category'', ''success'']"

text \<open>
  \<open>CollectionResult(**kw)\<close>, the only way the source offers to build a result from a
  mapping. As for \<open>ContentItem\<close>, the outcome is \<open>None\<close> for arguments that are not of
  the annotated types.
\<close>

definition CollectionResult_call :: "'dt \<Rightarrow> 'dt pydict \<Rightarrow> (exn + 'dt CollectionResult) option" where
  "CollectionResult_call now kw =
     (case bind_kwargs CollectionResult_fields CollectionResult_required kw of
        Inl e \<Rightarrow> Some (Inl e)
      | Inr bound \<Rightarrow>
          Option.bind (arg bound ''author_name'' as_str) (\<lambda>v1.
          Option.bind (arg bound ''author_url'' as_str) (\<lambda>v2.
          Option.bind (arg bound ''category'' as_enum) (\<lambda>v3.
          Option.bind (arg bound ''success'' as_bool) (\<lambda>v4.
          Option.bind (arg_default bound ''items'' None (map_option Some \<circ> as_item_list)) (\<lambda>v5.
          Option.bind (arg_default bound ''error_message'' None as_opt_str) (\<lambda>v6.
          Option.bind (arg_default bound ''collected_at'' None (map_option Some \<circ> as_datetime)) (\<lambda>v7.
            Some (CollectionResult_init now v1 v2 v3 v4 v5 v6 v7)))))))))"

text \<open>\<open>CollectionResult.to_dict\<close> (lines 117 to 128).\<close>

definition CollectionResult_to_dict :: "('dt \<Rightarrow> string) \<Rightarrow> 'dt CollectionResult \<Rightarrow> 'dt pydict" where
  "CollectionResult_to_dict isoformat self =
     [(''author_name'', PStr (CollectionResult.author_name self)),
      (''author_url'', PStr (CollectionResult.author_url self)),
      (''category'', PStr (CategoryType_value (CollectionResult.category self))),
      (''success'', PBool (success self)),
      (''items'', PList (map (\<lambda>item. PDict (to_dict isoformat item)) (items self))),
      (''error_message'', opt_str (error_message self)),
      (''collected_at'', PStr (isoformat (CollectionResult.collected_at self))),
      (''total_items'', PInt (int (length (items self))))]"

section \<open>base\_collector.py and the three collectors\<close>

subsection \<open>Feed entries\<close>

text \<open>
  A collector reads a feed through the library \<open>feedparser\<close>. An entry is given by
  the attributes that the mapping of an entry reads: \<open>None\<close> is an attribute that the
  entry does not have. The publication date, the image and the identifier of an entry
  come from library calls over further attributes (time tuples, media lists, regular
  expressions, an HTML parser); no property below reads them, and an entry carries
  their outcome in \<open>extras\<close>: the three values, or the exception that their
  derivation raises.
\<close>

record 'dt extras =
  publish_date :: "'dt option"
  image :: "string option"
  content_id :: "string option"

record 'dt entry =
  title :: "string option"
  link :: "string option"
  summary :: "string option"
  description :: "string option"
  content :: "string list option"
  extras :: "exn + 'dt extras"

text \<open>\<open>entry.get(key, '')\<close>\<close>

definition get_or_empty :: "string option \<Rightarrow> string" where
  "get_or_empty v = (case v of None \<Rightarrow> [] | Some s \<Rightarrow> s)"

text \<open>
  \<open>xs[:n]\<close> for an integer \<open>n\<close>: the first \<open>n\<close> elements, and for a negative \<open>n\<close>
  all but the last \<open>-n\<close>.
\<close>

definition slice_to :: "int \<Rightarrow> 'a list \<Rightarrow> 'a list" where
  "slice_to n xs = (if 0 \<le> n then take (nat n) xs else take (nat (int (length xs) + n)) xs)"

subsection \<open>BaseCollector\<close>

text \<open>
  \<open>_create_success_result\<close> and \<open>_create_error_result\<close> (lines 63 to 97). The clock
  reading \<open>now\<close> fills \<open>collected_at\<close>.
\<close>

definition create_success_result :: "'dt \<Rightarrow> Author \<Rightarrow> 'dt ContentItem list \<Rightarrow> exn + 'dt CollectionResult" where
  "create_success_result now a its =
     CollectionResult_init now (name a) (Author.url a) (Author.category a)
       True (Some its) None None"

definition create_error_result :: "'dt \<Rightarrow> Author \<Rightarrow> string \<Rightarrow> exn + 'dt CollectionResult" where
  "create_error_result now a msg =
     CollectionResult_init now (name a) (Author.url a) (Author.category a)
       False None (Some msg) None"

text \<open>
  The loop over the entries, the same in the three collectors: an entry whose mapping
  raises is skipped (\<open>except Exception: continue\<close>), and so is one whose mapping
  returns \<open>None\<close>.
\<close>

fun parse_entries ::
  "('dt entry \<Rightarrow> exn + 'dt ContentItem option) \<Rightarrow> 'dt entry list \<Rightarrow> 'dt ContentItem list \<Rightarrow>
   'dt ContentItem list" where
  "parse_entries parse_entry [] its = its"
| "parse_entries parse_entry (e # es) its =
     (case parse_entry e of
        Inl ex \<Rightarrow> parse_entries parse_entry es its
      | Inr None \<Rightarrow> parse_entries parse_entry es its
      | Inr (Some item) \<Rightarrow> parse_entries parse_entry es (its @ [item]))"

text \<open>The message of the handler that ends each \<open>collect\<close> (an f-string around \<open>str(e)\<close>).\<close>

definition msg_collect_failed :: "string \<Rightarrow> string" where
  "msg_collect_failed m = ''collection failed: '' @ m"

subsection \<open>youtube\_collector.py\<close>

record YouTubeCollector =
  author :: Author
  rss_url :: "string option"

definition msg_no_channel_id :: string where
  "msg_no_channel_id = ''cannot get the channel ID, check the URL format''"

definition msg_no_videos :: string where
  "msg_no_videos = ''no video content found''"

text \<open>
  \<open>_parse_entry\<close> (lines 169 to 230). The whole body stands in a \<open>try\<close> whose handler
  returns \<open>None\<close>, so the function itself never raises.
\<close>

definition YouTube_parse_entry :: "'dt \<Rightarrow> YouTubeCollector \<Rightarrow> 'dt entry \<Rightarrow> exn + 'dt ContentItem option" where
  "YouTube_parse_entry now self e =
     (let title' = strip (get_or_empty (entry.title e));
          url' = get_or_empty (link e);
          description' = strip (get_or_empty (summary e))
      in case extras e of
           Inl ex \<Rightarrow> Inr None
         | Inr x \<Rightarrow>
             (case post_init
                     \<lparr>ContentItem_rec.title = title', url = url',
                      author_name = name (author self),
                      author_url = Author.url (author self),
                      category = CatEnum VIDEO,
                      description = description',
                      publish_date = extras.publish_date x,
                      thumbnail_url = image x,
                      cover_image_url = None, images = [], duration = None, views = None,
                      tags = [], collected_at = now,
                      content_id = extras.content_id x\<rparr> of
                Inl ex \<Rightarrow> Inr None
              | Inr item \<Rightarrow> Inr (Some item)))"

text \<open>
  \<open>collect\<close> (lines 133 to 167). \<open>fetch\<close> is \<open>feedparser.parse\<close>: the entries of the
  feed at a URL, or the exception it raises.
\<close>

definition YouTube_collect ::
  "(string \<Rightarrow> exn + 'dt entry list) \<Rightarrow> 'dt \<Rightarrow> YouTubeCollector \<Rightarrow> int \<Rightarrow> exn + 'dt CollectionResult" where
  "YouTube_collect fetch now self max_items =
     (case rss_url self of
        None \<Rightarrow> create_error_result now (author self) msg_no_channel_id
      | Some u \<Rightarrow>
          (case
             (case fetch u of
                Inl ex \<Rightarrow> Inl ex
              | Inr entries \<Rightarrow>
                  if entries = [] then create_error_result now (author self) msg_no_videos
                  else
                    create_success_result now (author self)
                      (parse_entries (YouTube_parse_entry now self) (slice_to max_items entries) []))
           of
             Inl ex \<Rightarrow> create_error_result now (author self) (msg_collect_failed (str_exn ex))
           | Inr r \<Rightarrow> Inr r))"

subsection \<open>news\_collector.py\<close>

record NewsCollector =
  author :: Author
  feed_url :: string

definition msg_news_no_entries :: string where
  "msg_news_no_entries = ''no entries found in the feed''"

definition msg_news_no_valid_items :: string where
  "msg_news_no_valid_items = ''could not parse any valid news entry''"

text \<open>
  \<open>_parse_entry\<close> (lines 105 to 200). \<open>html_text s\<close> is
  \<open>BeautifulSoup(s, 'html.parser').get_text()\<close>. Nothing is caught here: an exception
  of the derivations or of the constructor leaves the function.
\<close>

definition News_parse_entry ::
  "(string \<Rightarrow> string) \<Rightarrow> 'dt \<Rightarrow> NewsCollector \<Rightarrow> 'dt entry \<Rightarrow> exn + 'dt ContentItem option" where
  "News_parse_entry html_text now self e =
     (let title' = strip (get_or_empty (entry.title e)) in
      if title' = [] then Inr None
      else
        let link' = strip (get_or_empty (entry.link e)) in
        if link' = [] then Inr None
        else
          let description' =
                (case summary e of
                   Some s \<Rightarrow> s
                 | None \<Rightarrow>
                     (case entry.description e of
                        Some d \<Rightarrow> d
                      | None \<Rightarrow>
                          (case content e of
                             Some (c # cs) \<Rightarrow> c
                           | Some [] \<Rightarrow> []
                           | None \<Rightarrow> [])));
              description' =
                (if description' \<noteq> [] then
                   let description' = strip (html_text description') in
                   if length description' > 500 then take 500 description' @ ''...''
                   else description'
                 else description')
          in case extras e of
               Inl ex \<Rightarrow> Inl ex
             | Inr x \<Rightarrow>
                 (case post_init
                         \<lparr>ContentItem_rec.title = title', url = link',
                          author_name = name (NewsCollector.author self),
                          author_url = Author.url (NewsCollector.author self),
                          category = CatEnum NEWS,
                          description = description',
                          publish_date = extras.publish_date x,
                          thumbnail_url = None,
                          cover_image_url = image x, images = [], duration = None,
                          views = None, tags = [], collected_at = now,
                          content_id = extras.content_id x\<rparr> of
                    Inl ex \<Rightarrow> Inl ex
                  | Inr item \<Rightarrow> Inr (Some item)))"

text \<open>\<open>collect\<close> (lines 69 to 103).\<close>

definition News_collect ::
  "(string \<Rightarrow> exn + 'dt entry list) \<Rightarrow> (string \<Rightarrow> string) \<Rightarrow> 'dt \<Rightarrow> NewsCollector \<Rightarrow> int \<Rightarrow>
   exn + 'dt CollectionResult" where
  "News_collect fetch html_text now self max_items =
     (case
        (case fetch (feed_url self) of
           Inl ex \<Rightarrow> Inl ex
         | Inr entries \<Rightarrow>
             if entries = [] then
               create_error_result now (NewsCollector.author self) msg_news_no_entries
             else
               let its = parse_entries (News_parse_entry html_text now self)
                           (slice_to max_items entries) []
               in if its = [] then
                    create_error_result now (NewsCollector.author self) msg_news_no_valid_items
                  else create_success_result now (NewsCollector.author self) its)
      of
        Inl ex \<Rightarrow>
          create_error_result now (NewsCollector.author self) (msg_collect_failed (str_exn ex))
      | Inr r \<Rightarrow> Inr r)"

subsection \<open>podcast\_collector.py\<close>

record PodcastCollector =
  author :: Author
  rss_url :: string

definition msg_podcast_no_entries :: string where
  "msg_podcast_no_entries = ''no entries found in the RSS feed''"

definition msg_podcast_no_valid_items :: string where
  "msg_podcast_no_valid_items = ''could not parse any valid podcast entry''"

text \<open>\<open>_parse_entry\<close> (lines 83 to 167).\<close>

definition Podcast_parse_entry ::
  "(string \<Rightarrow> string) \<Rightarrow> 'dt \<Rightarrow> PodcastCollector \<Rightarrow> 'dt entry \<Rightarrow> exn + 'dt ContentItem option" where
  "Podcast_parse_entry html_text now self e =
     (let title' = strip (get_or_empty (entry.title e)) in
      if title' = [] then Inr None
      else
        let link' = strip (get_or_empty (entry.link e)) in
        if link' = [] then Inr None
        else
          let description' =
                (case summary e of
                   Some s \<Rightarrow> s
                 | None \<Rightarrow>
                     (case entry.description e of
                        Some d \<Rightarrow> d
                      | None \<Rightarrow>
                          (case content e of
                             Some (c # cs) \<Rightarrow> c
                           | Some [] \<Rightarrow> []
                           | None \<Rightarrow> [])));
              description' =
                (if description' \<noteq> [] then
                   let description' = strip (html_text description') in
                   if length description' > 500 then take 500 description' @ ''...''
                   else description'
                 else description')
          in case extras e of
               Inl ex \<Rightarrow> Inl ex
             | Inr x \<Rightarrow>
                 (case post_init
                         \<lparr>ContentItem_rec.title = title', url = link',
                          author_name = name (PodcastCollector.author self),
                          author_url = Author.url (PodcastCollector.author self),
                          category = CatEnum PODCAST,
                          description = description',
                          publish_date = extras.publish_date x,
                          thumbnail_url = None,
                          cover_image_url = image x, images = [], duration = None,
                          views = None, tags = [], collected_at = now,
                          content_id = extras.content_id x\<rparr> of
                    Inl ex \<Rightarrow> Inl ex
                  | Inr item \<Rightarrow> Inr (Some item)))"

text \<open>\<open>collect\<close> (lines 47 to 81).\<close>

definition Podcast_collect ::
  "(string \<Rightarrow> exn + 'dt entry list) \<Rightarrow> (string \<Rightarrow> string) \<Rightarrow> 'dt \<Rightarrow> PodcastCollector \<Rightarrow> int \<Rightarrow>
   exn + 'dt CollectionResult" where
  "Podcast_collect fetch html_text now self max_items =
     (case
        (case fetch (PodcastCollector.rss_url self) of
           Inl ex \<Rightarrow> Inl ex
         | Inr entries \<Rightarrow>
             if entries = [] then
               create_error_result now (PodcastCollector.author self) msg_podcast_no_entries
             else
               let its = parse_entries (Podcast_parse_entry html_text now self)
                           (slice_to max_items entries) []
               in if its = [] then
                    create_error_result now (PodcastCollector.author self) msg_podcast_no_valid_items
                  else create_success_result now (PodcastCollector.author self) its)
      of
        Inl ex \<Rightarrow>
          create_error_result now (PodcastCollector.author self) (msg_collect_failed (str_exn ex))
      | Inr r \<Rightarrow> Inr r)"

section \<open>collector\_manager.py\<close>

text \<open>
  The manager holds collectors through the abstract class \<open>BaseCollector\<close>: an
  author and a method \<open>collect\<close>, which for the manager is any function of
  \<open>max_items\<close> that returns a result or raises. The registry \<open>self.collectors\<close> is a
  dictionary from author names to collectors, in insertion order.
\<close>

record 'dt BaseCollector =
  author :: Author
  collect :: "int \<Rightarrow> exn + 'dt CollectionResult"

text \<open>\<open>get_enabled_authors\<close> of config\_manager.py (line 123).\<close>

definition get_enabled_authors :: "Author list \<Rightarrow> Author list" where
  "get_enabled_authors authors = filter enabled authors"

text \<open>
  \<open>create_collector\<close> (youtube\_collector.py, lines 256 to 284): the collector of the
  category of the author. The constructors of the three collectors resolve the feed of
  the author, and what they find is given by three parameters: \<open>channel_rss\<close> is the
  \<open>rss_url\<close> that \<open>YouTubeCollector.__init__\<close> sets (\<open>None\<close> when it finds no channel
  ID), \<open>podcast_rss\<close> is \<open>_get_rss_url\<close> and \<open>news_feed\<close> is \<open>_get_feed_url\<close>. The
  network calls of the constructors stand in \<open>try\<close> blocks that catch everything, so
  none of them raises. An \<open>Author\<close> holds a member of the enum, so one of the three
  branches is taken and the last line, \<open>return None\<close>, is not reached.
\<close>

definition create_collector ::
  "(Author \<Rightarrow> string option) \<Rightarrow> (Author \<Rightarrow> string) \<Rightarrow> (Author \<Rightarrow> string) \<Rightarrow>
   (string \<Rightarrow> exn + 'dt entry list) \<Rightarrow> (string \<Rightarrow> string) \<Rightarrow> 'dt \<Rightarrow>
   Author \<Rightarrow> 'dt BaseCollector option" where
  "create_collector channel_rss podcast_rss news_feed fetch html_text now a =
     (case Author.category a of
        VIDEO \<Rightarrow>
          Some \<lparr>BaseCollector.author = a,
                collect = YouTube_collect fetch now
                            \<lparr>YouTubeCollector.author = a, rss_url = channel_rss a\<rparr>\<rparr>
      | PODCAST \<Rightarrow>
          Some \<lparr>BaseCollector.author = a,
                collect = Podcast_collect fetch html_text now
                            \<lparr>PodcastCollector.author = a, rss_url = podcast_rss a\<rparr>\<rparr>
      | NEWS \<Rightarrow>
          Some \<lparr>BaseCollector.author = a,
                collect = News_collect fetch html_text now
                            \<lparr>NewsCollector.author = a, feed_url = news_feed a\<rparr>\<rparr>)"

text \<open>
  \<open>_initialize_collectors\<close> (lines 28 to 37), over the enabled authors in their
  configured order; the registry \<open>self.collectors\<close> starts empty (line 25) and is
  \<open>initialize_collectors factory (get_enabled_authors authors) []\<close>. The function that makes a collector for an author is the
  parameter \<open>factory\<close>, which in the source is \<open>create_collector\<close>. An author
  without collector is left out (line 37 prints a warning). An assignment
  \<open>self.collectors[name] = c\<close> for a name that is already a key keeps the position of
  the key and replaces its collector.
\<close>

fun initialize_collectors ::
  "(Author \<Rightarrow> 'dt BaseCollector option) \<Rightarrow> Author list \<Rightarrow> (string \<times> 'dt BaseCollector) list \<Rightarrow>
   (string \<times> 'dt BaseCollector) list" where
  "initialize_collectors factory [] collectors = collectors"
| "initialize_collectors factory (a # enabled_authors) collectors =
     (case factory a of
        Some collector \<Rightarrow>
          initialize_collectors factory enabled_authors
            (AList.update (name a) collector collectors)
      | None \<Rightarrow> initialize_collectors factory enabled_authors collectors)"

text \<open>
  \<open>collect_all\<close> (lines 39 to 91). The state of the loop is the list \<open>results\<close> and,
  added here to count the calls, the list of the author names whose collector was
  called at line 64. The printing is left out: on a result it reads fields, and
  \<open>get_today_items\<close> (content\_model.py, lines 88 to 94 and 130 to 132) takes
  \<open>publish_date.date()\<close> of the items that have a date, which a \<open>datetime\<close> answers:
  nothing there raises on a \<open>CollectionResult\<close>, which is what the type of \<open>collect\<close>
  says a collector returns. An exception of \<open>collect\<close> is caught and a failed result
  is built for the author (lines 75 to 85).
\<close>

fun collect_loop ::
  "'dt \<Rightarrow> int \<Rightarrow> (string \<times> 'dt BaseCollector) list \<Rightarrow> 'dt CollectionResult list \<times> string list \<Rightarrow>
   exn + 'dt CollectionResult list \<times> string list" where
  "collect_loop now max_items [] (results, calls) = Inr (results, calls)"
| "collect_loop now max_items ((a_name, collector) # rest) (results, calls) =
     (case collect collector max_items of
        Inr result \<Rightarrow>
          collect_loop now max_items rest (results @ [result], calls @ [a_name])
      | Inl e \<Rightarrow>
          (case CollectionResult_init now a_name
                  (Author.url (BaseCollector.author collector))
                  (Author.category (BaseCollector.author collector))
                  False None (Some (str_exn e)) None of
             Inl e' \<Rightarrow> Inl e'
           | Inr result \<Rightarrow>
               collect_loop now max_items rest (results @ [result], calls @ [a_name])))"

text \<open>
  \<open>max_items_per_author\<close> is \<open>None\<close> when the caller omits it, and then the setting
  \<open>settings.max_items_per_author\<close> is taken.
\<close>

definition collect_all ::
  "'dt \<Rightarrow> int \<Rightarrow> (string \<times> 'dt BaseCollector) list \<Rightarrow> int option \<Rightarrow>
   exn + 'dt CollectionResult list \<times> string list" where
  "collect_all now settings_max_items collectors max_items_per_author =
     collect_loop now
       (case max_items_per_author of None \<Rightarrow> settings_max_items | Some m \<Rightarrow> m)
       collectors ([], [])"

section \<open>data\_storage.py and app.py\<close>

subsection \<open>The documents of the store\<close>

text \<open>
  A collection file holds the JSON document that \<open>save_results\<close> writes (lines 51 to
  58): the counters of the run and one document per result, which is the mapping of
  \<open>CollectionResult.to_dict\<close>. The merge reads such documents by key; they are records
  of those keys here. The merge adds two keys to a result it takes from history,
  \<open>from_history\<close> and \<open>history_collected_at\<close>: \<open>None\<close> is a document without the key.
  The items stay mappings, since the view reads a key of theirs that may be absent.
\<close>

record 'dt result_doc =
  author_name :: string
  author_url :: string
  category :: string
  success :: bool
  items :: "'dt pydict list"
  error_message :: "string option"
  collected_at :: string
  total_items :: int
  from_history :: "bool option"
  history_collected_at :: "string option"

record 'dt snapshot =
  collected_at :: string
  total_authors :: int
  successful_authors :: int
  failed_authors :: int
  total_items :: int
  results :: "'dt result_doc list"

text \<open>
  \<open>save_results\<close> (data\_storage.py, lines 51 to 58): the document of a run, with the
  counters computed from the results. A file holds what was written: reading the JSON
  text back gives the document again.
\<close>

definition result_to_doc :: "('dt \<Rightarrow> string) \<Rightarrow> 'dt CollectionResult \<Rightarrow> 'dt result_doc" where
  "result_to_doc isoformat r =
     \<lparr>result_doc.author_name = CollectionResult.author_name r,
      author_url = CollectionResult.author_url r,
      category = CategoryType_value (CollectionResult.category r),
      success = CollectionResult.success r,
      items = map (to_dict isoformat) (CollectionResult.items r),
      error_message = CollectionResult.error_message r,
      collected_at = isoformat (CollectionResult.collected_at r),
      total_items = int (length (CollectionResult.items r)),
      from_history = None, history_collected_at = None\<rparr>"

definition save_results :: "('dt \<Rightarrow> string) \<Rightarrow> 'dt \<Rightarrow> 'dt CollectionResult list \<Rightarrow> 'dt snapshot" where
  "save_results isoformat now rs =
     \<lparr>snapshot.collected_at = isoformat now,
      total_authors = int (length rs),
      successful_authors = sum_list (map (\<lambda>r. 1) (filter CollectionResult.success rs)),
      failed_authors = sum_list (map (\<lambda>r. 1) (filter (\<lambda>r. \<not> CollectionResult.success r) rs)),
      total_items =
        sum_list (map (\<lambda>r. int (length (CollectionResult.items r)))
                    (filter CollectionResult.success rs)),
      results = map (result_to_doc isoformat) rs\<rparr>"

text \<open>
  The store: the collection files as \<open>list_saved_files\<close> lists them, newest first,
  each with what \<open>load_results\<close> returns for it: its document, or \<open>None\<close> for a file
  that is missing or cannot be read (an empty mapping counts as \<open>None\<close> too, since
  the merge only tests \<open>not data\<close>).
\<close>

type_synonym 'dt store = "(string \<times> 'dt snapshot option) list"

subsection \<open>load\_latest\_data\<close>

text \<open>
  The inner loop (lines 61 to 82) over the results of one older document. Its state is
  \<open>latest_data\<close> and the set \<open>failed_authors\<close>. (The set \<open>successful_authors\<close> of the
  source is written and never read.)
\<close>

fun backfill ::
  "'dt snapshot \<Rightarrow> 'dt result_doc list \<Rightarrow> 'dt snapshot \<times> string set \<Rightarrow> 'dt snapshot \<times> string set" where
  "backfill old_data [] (latest_data, pending) = (latest_data, pending)"
| "backfill old_data (result # rest) (latest_data, pending) =
     (if result_doc.author_name result \<in> pending \<and> result_doc.success result then
        backfill old_data rest
          (latest_data
             \<lparr>results :=
                filter (\<lambda>r. result_doc.author_name r \<noteq> result_doc.author_name result)
                  (results latest_data)
                @ [result\<lparr>from_history := Some True,
                          history_collected_at := Some (snapshot.collected_at old_data)\<rparr>],
              successful_authors := successful_authors latest_data + 1,
              failed_authors := failed_authors latest_data - 1,
              total_items :=
                snapshot.total_items latest_data + int (length (result_doc.items result))\<rparr>,
           pending - {result_doc.author_name result})
      else backfill old_data rest (latest_data, pending))"

text \<open>
  The outer loop (lines 52 to 58) over the older files. The third component of the
  state lists the files given to \<open>load_results\<close> so far.
\<close>

fun scan_history ::
  "'dt store \<Rightarrow> ('dt snapshot \<times> string set) \<times> string list \<Rightarrow> ('dt snapshot \<times> string set) \<times> string list" where
  "scan_history [] st = st"
| "scan_history ((old_file, loaded) # old_files) ((latest_data, pending), loads) =
     (if pending = {} then ((latest_data, pending), loads)
      else
        (case loaded of
           None \<Rightarrow> scan_history old_files ((latest_data, pending), loads @ [old_file])
         | Some old_data \<Rightarrow>
             scan_history old_files
               (backfill old_data (results old_data) (latest_data, pending),
                loads @ [old_file])))"

text \<open>
  The first loop (lines 40 to 47): the names of the results of the newest document
  that are not successful.
\<close>

definition failed_names :: "'dt snapshot \<Rightarrow> string set" where
  "failed_names latest_data =
     set (map result_doc.author_name
            (filter (\<lambda>r. \<not> result_doc.success r) (results latest_data)))"

text \<open>
  \<open>load_latest_data\<close> (lines 17 to 84): the merged view, or \<open>None\<close> when there is no
  data, and the files it loaded.
\<close>

definition load_latest_data :: "'dt store \<Rightarrow> 'dt snapshot option \<times> string list" where
  "load_latest_data collection_files =
     (case collection_files of
        [] \<Rightarrow> (None, [])
      | (latest_file, loaded) # old_files \<Rightarrow>
          (case loaded of
             None \<Rightarrow> (None, [latest_file])
           | Some latest_data \<Rightarrow>
               (let pending = failed_names latest_data
                in if pending \<noteq> {} then
                     (case scan_history old_files ((latest_data, pending), [latest_file]) of
                        ((merged, _), loads) \<Rightarrow> (Some merged, loads))
                   else (Some latest_data, [latest_file]))))"

text \<open>
  What the merge is to compute, in the words of the specification: the history of an
  author is the first successful result for the author in the older snapshots, scanned
  newest to oldest (a file that does not load has none), tagged with its origin.
\<close>

definition tagged :: "'dt snapshot \<Rightarrow> 'dt result_doc \<Rightarrow> 'dt result_doc" where
  "tagged old_data r =
     r\<lparr>from_history := Some True, history_collected_at := Some (snapshot.collected_at old_data)\<rparr>"

fun history :: "string \<Rightarrow> 'dt store \<Rightarrow> 'dt result_doc option" where
  "history a [] = None"
| "history a ((f, None) # older) = history a older"
| "history a ((f, Some old_data) # older) =
     (case find (\<lambda>r. result_doc.author_name r = a \<and> result_doc.success r) (results old_data) of
        Some r \<Rightarrow> Some (tagged old_data r)
      | None \<Rightarrow> history a older)"

subsection \<open>The read view: index and api\_items\<close>

definition msg_unknown_time :: string where
  "msg_unknown_time = ''unknown time''"

definition msg_not_comparable :: string where
  "msg_not_comparable = '' < not supported between instances''"

text \<open>The truth value of a Python value.\<close>

fun truthy :: "'dt pyval \<Rightarrow> bool" where
  "truthy PNone = False"
| "truthy (PBool b) = b"
| "truthy (PInt n) = (n \<noteq> 0)"
| "truthy (PStr s) = (s \<noteq> [])"
| "truthy (PList vs) = (vs \<noteq> [])"
| "truthy (PDict d) = (d \<noteq> [])"
| "truthy _ = True"

text \<open>\<open>d.get(k, dflt)\<close>\<close>

definition dict_get :: "'dt pydict \<Rightarrow> string \<Rightarrow> 'dt pyval \<Rightarrow> 'dt pyval" where
  "dict_get d k dflt = (case map_of d k of None \<Rightarrow> dflt | Some v \<Rightarrow> v)"

text \<open>
  \<open>format_publish_date\<close> (lines 87 to 111). A falsy date gives the "unknown time"
  label. Otherwise the label comes from the clock and the parsed date, inside a
  \<open>try\<close> whose handler gives the "unknown time" label again: \<open>label s\<close> is the outcome
  of that block for the string \<open>s\<close>; for a value that is no string the parser raises.
\<close>

definition format_publish_date :: "(string \<Rightarrow> string) \<Rightarrow> 'dt pyval \<Rightarrow> string" where
  "format_publish_date label date_str =
     (if \<not> truthy date_str then msg_unknown_time
      else (case date_str of PStr s \<Rightarrow> label s | _ \<Rightarrow> msg_unknown_time))"

text \<open>
  The comparison \<open><\<close> of two values: strings by code points, numbers by value, and a
  \<open>TypeError\<close> between \<open>None\<close> and anything, or between a string and a number. (Lists
  and the other values, which are no dates, are not ordered here.)
\<close>

fun as_number :: "'dt pyval \<Rightarrow> int option" where
  "as_number (PInt n) = Some n"
| "as_number (PBool b) = Some (if b then 1 else 0)"
| "as_number _ = None"

definition py_less :: "'dt pyval \<Rightarrow> 'dt pyval \<Rightarrow> exn + bool" where
  "py_less a b =
     (case (a, b) of
        (PStr s, PStr t) \<Rightarrow> Inr (s < t)
      | _ \<Rightarrow>
          (case (as_number a, as_number b) of
             (Some m, Some n) \<Rightarrow> Inr (m < n)
           | _ \<Rightarrow> Inl (TypeError msg_not_comparable)))"

text \<open>
  \<open>xs.sort(key=key, reverse=True)\<close>: a stable sort into descending order of the keys
  that compares keys with \<open><\<close> only; an exception of a comparison ends it. Here by
  insertion from the right: an element goes in front of the first element that its key
  is not less than, hence in front of the later elements of the same key.
\<close>

fun insert_desc :: "('a \<Rightarrow> 'dt pyval) \<Rightarrow> 'a \<Rightarrow> 'a list \<Rightarrow> exn + 'a list" where
  "insert_desc key x [] = Inr [x]"
| "insert_desc key x (y # ys) =
     (case py_less (key x) (key y) of
        Inl e \<Rightarrow> Inl e
      | Inr False \<Rightarrow> Inr (x # y # ys)
      | Inr True \<Rightarrow>
          (case insert_desc key x ys of
             Inl e \<Rightarrow> Inl e
           | Inr zs \<Rightarrow> Inr (y # zs)))"

fun sort_reverse :: "('a \<Rightarrow> 'dt pyval) \<Rightarrow> 'a list \<Rightarrow> exn + 'a list" where
  "sort_reverse key [] = Inr []"
| "sort_reverse key (x # xs) =
     (case sort_reverse key xs of
        Inl e \<Rightarrow> Inl e
      | Inr ys \<Rightarrow> insert_desc key x ys)"

text \<open>
  The two loops of \<open>index\<close> (lines 127 to 133) and of \<open>api_items\<close> (lines 174 to 179):
  every item of every successful result, each with the key \<open>formatted_date\<close> set.
\<close>

definition annotate :: "(string \<Rightarrow> string) \<Rightarrow> 'dt pydict \<Rightarrow> 'dt pydict" where
  "annotate label item =
     AList.update ''formatted_date''
       (PStr (format_publish_date label (dict_get item ''publish_date'' PNone))) item"

definition all_items :: "(string \<Rightarrow> string) \<Rightarrow> 'dt snapshot \<Rightarrow> 'dt pydict list" where
  "all_items label data =
     concat (map (\<lambda>result.
                    if result_doc.success result
                    then map (annotate label) (result_doc.items result)
                    else [])
               (results data))"

text \<open>\<open>lambda x: x.get('publish_date', '')\<close>\<close>

definition date_key :: "'dt pydict \<Rightarrow> 'dt pyval" where
  "date_key x = dict_get x ''publish_date'' (PStr [])"

text \<open>
  \<open>api_items\<close> (lines 166 to 184): the sorted items and their number; \<open>index\<close> hands
  the same two values to its template.
\<close>

definition api_items :: "(string \<Rightarrow> string) \<Rightarrow> 'dt store \<Rightarrow> exn + 'dt pydict list \<times> nat" where
  "api_items label collection_files =
     (case fst (load_latest_data collection_files) of
        None \<Rightarrow> Inr ([], 0)
      | Some data \<Rightarrow>
          (case sort_reverse date_key (all_items label data) of
             Inl e \<Rightarrow> Inl e
           | Inr sorted_items \<Rightarrow> Inr (sorted_items, length sorted_items)))"

section \<open>Definitions for the proofs and the examples\<close>

subsection \<open>Values of the content model\<close>

text \<open>Concrete values for the examples: datetimes are ISO strings there.\<close>

definition example_item :: "string ContentItem" where
  "example_item =
     \<lparr>ContentItem_rec.title = ''Test Video'', url = ''https://youtube.com/watch?v=test123'',
      author_name = ''Test Author'', author_url = ''https://youtube.com/@test'',
      category = VIDEO, description = ''Test description'',
      publish_date = Some ''2025-11-10T10:00:00'',
      thumbnail_url = Some ''https://example.com/thumb.jpg'', cover_image_url = None,
      images = [], duration = None, views = Some 7, tags = [''ai''],
      collected_at = ''2025-11-10T11:00:00'', content_id = None\<rparr>"

definition example_result :: "string CollectionResult" where
  "example_result =
     \<lparr>CollectionResult.author_name = ''Test Author'', author_url = ''https://youtube.com/@test'',
      category = VIDEO, success = True, items = [example_item], error_message = None,
      collected_at = ''2025-11-10T11:00:05''\<rparr>"

subsection \<open>The merge in closed form\<close>

text \<open>
  The merge in closed form. \<open>picks\<close> lists the results that the inner loop takes from
  one older document, \<open>scan_picks\<close> those that the outer loop takes from the older
  files, \<open>scan_loads\<close> the files that the outer loop loads, and \<open>merged_with\<close> is the
  newest document after a list of results has been taken into it.
\<close>

definition merged_with :: "'dt snapshot \<Rightarrow> 'dt result_doc list \<Rightarrow> 'dt snapshot" where
  "merged_with latest_data ps =
     latest_data
       \<lparr>results :=
          filter (\<lambda>r. result_doc.author_name r \<notin> set (map result_doc.author_name ps))
            (results latest_data) @ ps,
        successful_authors := successful_authors latest_data + int (length ps),
        failed_authors := failed_authors latest_data - int (length ps),
        total_items :=
          snapshot.total_items latest_data
          + sum_list (map (\<lambda>p. int (length (result_doc.items p))) ps)\<rparr>"

fun picks :: "'dt snapshot \<Rightarrow> 'dt result_doc list \<Rightarrow> string set \<Rightarrow> 'dt result_doc list" where
  "picks old_data [] pending = []"
| "picks old_data (r # rs) pending =
     (if result_doc.author_name r \<in> pending \<and> result_doc.success r
      then tagged old_data r # picks old_data rs (pending - {result_doc.author_name r})
      else picks old_data rs pending)"

fun scan_picks :: "'dt store \<Rightarrow> string set \<Rightarrow> 'dt result_doc list" where
  "scan_picks [] pending = []"
| "scan_picks ((f, loaded) # older) pending =
     (if pending = {} then []
      else
        (case loaded of
           None \<Rightarrow> scan_picks older pending
         | Some old_data \<Rightarrow>
             picks old_data (results old_data) pending
             @ scan_picks older
                 (pending - set (map result_doc.author_name
                                   (picks old_data (results old_data) pending)))))"

fun scan_loads :: "'dt store \<Rightarrow> string set \<Rightarrow> string list" where
  "scan_loads [] pending = []"
| "scan_loads ((f, loaded) # older) pending =
     (if pending = {} then []
      else
        f # scan_loads older
              (case loaded of
                 None \<Rightarrow> pending
               | Some old_data \<Rightarrow>
                   pending - set (map result_doc.author_name
                                   (picks old_data (results old_data) pending))))"

text \<open>
  The authors that the merge backfills: the failed authors of the newest document that
  have a history.
\<close>

definition resolved :: "'dt snapshot \<Rightarrow> 'dt store \<Rightarrow> string set" where
  "resolved latest_data older = {a \<in> failed_names latest_data. history a older \<noteq> None}"

subsection \<open>Stores for the examples of the merge\<close>

text \<open>The merge scenario of the specification, and variants of it.\<close>

definition scenario_latest :: "unit snapshot" where
  "scenario_latest =
     \<lparr>collected_at = ''2025-11-11T08:00:00'', total_authors = 2, successful_authors = 1,
      failed_authors = 1, total_items = 2,
      results =
        [\<lparr>author_name = ''X'', author_url = ''https://x.example'', category = ''News'',
          success = True,
          items = [[(''title'', PStr ''x1'')], [(''title'', PStr ''x2'')]],
          error_message = None, collected_at = ''2025-11-11T08:00:00'', total_items = 2,
          from_history = None, history_collected_at = None\<rparr>,
         \<lparr>author_name = ''Y'', author_url = ''https://y.example'', category = ''News'',
          success = False, items = [], error_message = Some ''timeout'',
          collected_at = ''2025-11-11T08:00:01'', total_items = 0,
          from_history = None, history_collected_at = None\<rparr>]\<rparr>"

definition scenario_old_result :: "unit result_doc" where
  "scenario_old_result =
     \<lparr>author_name = ''Y'', author_url = ''https://y.example'', category = ''News'',
      success = True,
      items = [[(''title'', PStr ''y1'')], [(''title'', PStr ''y2'')], [(''title'', PStr ''y3'')]],
      error_message = None, collected_at = ''2025-11-10T08:00:01'', total_items = 3,
      from_history = None, history_collected_at = None\<rparr>"

definition scenario_old :: "unit snapshot" where
  "scenario_old =
     \<lparr>collected_at = ''2025-11-10T08:00:00'', total_authors = 1, successful_authors = 1,
      failed_authors = 0, total_items = 3, results = [scenario_old_result]\<rparr>"

definition scenario_unresolved :: "unit snapshot" where
  "scenario_unresolved =
     \<lparr>collected_at = ''2025-11-09T08:00:00'', total_authors = 1, successful_authors = 1,
      failed_authors = 0, total_items = 1,
      results =
        [\<lparr>author_name = ''X'', author_url = ''https://x.example'', category = ''News'',
          success = True, items = [[(''title'', PStr ''x0'')]],
          error_message = None, collected_at = ''2025-11-09T08:00:00'', total_items = 1,
          from_history = None, history_collected_at = None\<rparr>]\<rparr>"

definition scenario_failed_result :: "unit result_doc" where
  "scenario_failed_result =
     \<lparr>author_name = ''Y'', author_url = ''https://y.example'', category = ''News'',
      success = False, items = [], error_message = Some ''timeout'',
      collected_at = ''2025-11-11T08:00:01'', total_items = 0,
      from_history = None, history_collected_at = None\<rparr>"

definition scenario_duplicate :: "unit snapshot" where
  "scenario_duplicate =
     \<lparr>collected_at = ''2025-11-11T08:00:00'', total_authors = 2, successful_authors = 2,
      failed_authors = 0, total_items = 0,
      results =
        [\<lparr>author_name = ''X'', author_url = ''https://x.example'', category = ''News'',
          success = True, items = [],
          error_message = None, collected_at = ''2025-11-11T08:00:00'', total_items = 0,
          from_history = None, history_collected_at = None\<rparr>,
         \<lparr>author_name = ''X'', author_url = ''https://x.example'', category = ''News'',
          success = True, items = [],
          error_message = None, collected_at = ''2025-11-11T08:00:01'', total_items = 0,
          from_history = None, history_collected_at = None\<rparr>]\<rparr>"

subsection \<open>Collectors and feeds\<close>

text \<open>
  The items of the entries that map: an entry maps when its mapping returns an item,
  and does not when the mapping returns \<open>None\<close> or raises.
\<close>

definition mapped_items ::
  "('dt entry \<Rightarrow> exn + 'dt ContentItem option) \<Rightarrow> 'dt entry list \<Rightarrow> 'dt ContentItem list" where
  "mapped_items parse_entry es =
     List.map_filter
       (\<lambda>e. case parse_entry e of Inr (Some item) \<Rightarrow> Some item | _ \<Rightarrow> None) es"

text \<open>A feed for the examples: entries that map, one without title, one whose link is no web address.\<close>

definition example_entry :: "string \<Rightarrow> string entry" where
  "example_entry t =
     \<lparr>title = Some t, link = Some ''https://blog.example/post'', summary = Some ''text'',
      description = None, content = None,
      extras = Inr \<lparr>publish_date = None, image = None, content_id = None\<rparr>\<rparr>"

definition example_feed :: "string entry list" where
  "example_feed =
     [example_entry ''a'', (example_entry ''-'')\<lparr>entry.title := None\<rparr>, example_entry ''b'',
      (example_entry ''-'')\<lparr>link := Some ''ftp://blog.example/post''\<rparr>, example_entry ''c'',
      example_entry ''d'', example_entry ''e'', example_entry ''f'', example_entry ''g'',
      example_entry ''h'']"

definition example_author :: "CategoryType \<Rightarrow> Author" where
  "example_author c = \<lparr>name = ''Author'', url = ''https://blog.example'', category = c, enabled = True\<rparr>"

definition example_news :: NewsCollector where
  "example_news =
     \<lparr>NewsCollector.author = example_author NEWS, feed_url = ''https://blog.example/feed/''\<rparr>"

definition example_podcast :: PodcastCollector where
  "example_podcast =
     \<lparr>PodcastCollector.author = example_author PODCAST,
      rss_url = ''https://blog.example/feed/''\<rparr>"

definition example_video :: YouTubeCollector where
  "example_video =
     \<lparr>YouTubeCollector.author = example_author VIDEO,
      rss_url = Some ''https://www.youtube.com/feeds/videos.xml?channel_id=UC123''\<rparr>"

text \<open>
  The outcome of one author in \<open>collect_all\<close>: the result of the collector, or a failed
  result made from the exception.
\<close>

definition outcome :: "'dt \<Rightarrow> int \<Rightarrow> string \<times> 'dt BaseCollector \<Rightarrow> 'dt CollectionResult" where
  "outcome now max_items entry =
     (case collect (snd entry) max_items of
        Inr result \<Rightarrow> result
      | Inl e \<Rightarrow>
          \<lparr>CollectionResult.author_name = fst entry,
           author_url = Author.url (BaseCollector.author (snd entry)),
           category = Author.category (BaseCollector.author (snd entry)),
           success = False, items = [], error_message = Some (str_exn e),
           collected_at = now\<rparr>)"

text \<open>A registry for the examples: the collector of \<open>B\<close> raises.\<close>

definition example_registry :: "(string \<times> string BaseCollector) list" where
  "example_registry =
     [(''A'', \<lparr>BaseCollector.author = (example_author NEWS)\<lparr>name := ''A''\<rparr>,
              collect = (\<lambda>m. Inr (example_result\<lparr>CollectionResult.author_name := ''A''\<rparr>))\<rparr>),
      (''B'', \<lparr>BaseCollector.author = (example_author NEWS)\<lparr>name := ''B''\<rparr>,
              collect = (\<lambda>m. Inl (Exception ''boom''))\<rparr>),
      (''C'', \<lparr>BaseCollector.author = (example_author NEWS)\<lparr>name := ''C''\<rparr>,
              collect = (\<lambda>m. Inr (example_result\<lparr>CollectionResult.author_name := ''C''\<rparr>))\<rparr>)]"

text \<open>
  Configurations for the examples. The collectors are those of \<open>create_collector\<close> in a
  world where no channel ID is found, the feed of a podcast or a blog is at the URL of
  the author, and every feed is empty.
\<close>

definition no_channel :: "Author \<Rightarrow> string option" where
  "no_channel a = None"

definition empty_feed :: "string \<Rightarrow> exn + string entry list" where
  "empty_feed u = Inr []"

definition example_factory :: "Author \<Rightarrow> string BaseCollector option" where
  "example_factory =
     create_collector no_channel Author.url Author.url empty_feed id ''2025-11-10T12:00:00''"

definition example_authors :: "Author list" where
  "example_authors =
     [\<lparr>name = ''A'', url = ''https://a.example/feed'', category = NEWS, enabled = True\<rparr>,
      \<lparr>name = ''B'', url = ''https://b.example/rss'', category = PODCAST, enabled = False\<rparr>,
      \<lparr>name = ''C'', url = ''https://youtube.com/@c'', category = VIDEO, enabled = True\<rparr>]"

definition same_name_authors :: "Author list" where
  "same_name_authors =
     [\<lparr>name = ''A'', url = ''https://a.example/feed'', category = NEWS, enabled = True\<rparr>,
      \<lparr>name = ''A'', url = ''https://a2.example/rss'', category = PODCAST, enabled = True\<rparr>]"

subsection \<open>Items of the read view\<close>

text \<open>Items as the store holds them, for the examples of the read view.\<close>

definition dated_item :: "string \<Rightarrow> unit pydict" where
  "dated_item d =
     [(''title'', PStr ''post''), (''publish_date'', PStr d),
      (''collected_at'', PStr ''2025-11-11T08:00:00'')]"

definition null_date_item :: "unit pydict" where
  "null_date_item =
     [(''title'', PStr ''undated''), (''publish_date'', PNone),
      (''collected_at'', PStr ''2025-11-11T08:00:00'')]"

definition no_date_item :: "unit pydict" where
  "no_date_item =
     [(''title'', PStr ''undated''), (''collected_at'', PStr ''2025-11-11T08:00:00'')]"

definition view_store :: "unit pydict list \<Rightarrow> unit store" where
  "view_store its =
     [(''collection_20251111_080000.json'',
       Some \<lparr>collected_at = ''2025-11-11T08:00:00'', total_authors = 1,
             successful_authors = 1, failed_authors = 0, total_items = int (length its),
             results =
               [\<lparr>author_name = ''X'', author_url = ''https://x.example'', category = ''News'',
                 success = True, items = its, error_message = None,
                 collected_at = ''2025-11-11T08:00:00'', total_items = int (length its),
                 from_history = None, history_collected_at = None\<rparr>]\<rparr>)]"

text \<open>The string that a date key holds, for stating the order of the sorted items.\<close>

fun str_of :: "'dt pyval \<Rightarrow> string" where
  "str_of (PStr s) = s"
| "str_of _ = []"

section \<open>Properties of the content model\<close>

subsection \<open>Construction\<close>

lemma strip_Nil [simp]: "strip [] = []"
  by (simp add: strip_def)

lemma CategoryType_call_value: "CategoryType_call (CategoryType_value c) = Inr c"
  by (cases c) (simp_all add: CategoryType_call_def)

text \<open>
  Claim C5 as stated fails for \<open>CollectionResult\<close>: the dataclass checks nothing, and a
  result with \<open>success = False\<close>, an item and no error message is constructed.
\<close>

theorem CollectionResult_unchecked_counterexample:
  "CollectionResult_init ''2025-11-10T11:00:05'' ''Test Author''
       ''https://youtube.com/@test'' VIDEO False (Some [example_item]) None None =
     Inr \<lparr>CollectionResult.author_name = ''Test Author'',
          author_url = ''https://youtube.com/@test'', category = VIDEO, success = False,
          items = [example_item], error_message = None,
          collected_at = ''2025-11-10T11:00:05''\<rparr>"
  by (simp add: CollectionResult_init_def)

text \<open>
  Claim C5, amended. Constructing a \<open>ContentItem\<close> fails with a \<open>ValueError\<close> whose
  message names the field, for the first of these that holds: a title that is empty or
  blank, a URL that does not start with \<open>http://\<close> or \<open>https://\<close>, an author name that is
  empty or blank, a category string that is no value of the enum. Otherwise it succeeds
  and the item has the fields given, with the category as the enum. Constructing a
  \<open>CollectionResult\<close> checks nothing and always succeeds.
\<close>

theorem construction_validation:
  fixes self :: "'dt ContentItem_args"
  shows
    "(strip (ContentItem_rec.title self) = [] \<longrightarrow> post_init self = Inl (ValueError msg_title_empty)) \<and>
     (strip (ContentItem_rec.title self) \<noteq> [] \<and> \<not> startswith_http (ContentItem_rec.url self) \<longrightarrow>
        post_init self = Inl (ValueError (msg_invalid_content_url (ContentItem_rec.url self)))) \<and>
     (strip (ContentItem_rec.title self) \<noteq> [] \<and> startswith_http (ContentItem_rec.url self) \<and>
      strip (ContentItem_rec.author_name self) = [] \<longrightarrow>
        post_init self = Inl (ValueError msg_author_name_empty)) \<and>
     (strip (ContentItem_rec.title self) \<noteq> [] \<and> startswith_http (ContentItem_rec.url self) \<and>
      strip (ContentItem_rec.author_name self) \<noteq> [] \<and>
      ContentItem_rec.category self = CatStr s \<and> s \<notin> {''Podcast'', ''Video'', ''News''} \<longrightarrow>
        post_init self = Inl (ValueError (msg_not_a_category s))) \<and>
     (strip (ContentItem_rec.title self) \<noteq> [] \<and> startswith_http (ContentItem_rec.url self) \<and>
      strip (ContentItem_rec.author_name self) \<noteq> [] \<and>
      ContentItem_rec.category self \<in> {CatEnum c, CatStr (CategoryType_value c)} \<longrightarrow>
        post_init self = Inr (with_category self c) \<and>
        valid_ContentItem (with_category self c)) \<and>
     (\<exists>r. CollectionResult_init now a_name a_url cat ok its err at = Inr r \<and>
          CollectionResult.success r = ok \<and> CollectionResult.error_message r = err \<and>
          CollectionResult.items r = (case its of None \<Rightarrow> [] | Some xs \<Rightarrow> xs))"
proof (intro conjI impI)
  assume "strip (ContentItem_rec.title self) = []"
  then show "post_init self = Inl (ValueError msg_title_empty)"
    by (simp add: post_init_def)
next
  assume "strip (ContentItem_rec.title self) \<noteq> [] \<and> \<not> startswith_http (ContentItem_rec.url self)"
  then show "post_init self = Inl (ValueError (msg_invalid_content_url (ContentItem_rec.url self)))"
    by (auto simp: post_init_def)
next
  assume "strip (ContentItem_rec.title self) \<noteq> [] \<and> startswith_http (ContentItem_rec.url self) \<and>
      strip (ContentItem_rec.author_name self) = []"
  then show "post_init self = Inl (ValueError msg_author_name_empty)"
    by (auto simp: post_init_def startswith_http_def)
next
  assume "strip (ContentItem_rec.title self) \<noteq> [] \<and> startswith_http (ContentItem_rec.url self) \<and>
      strip (ContentItem_rec.author_name self) \<noteq> [] \<and>
      ContentItem_rec.category self = CatStr s \<and> s \<notin> {''Podcast'', ''Video'', ''News''}"
  then show "post_init self = Inl (ValueError (msg_not_a_category s))"
    by (auto simp: post_init_def startswith_http_def CategoryType_call_def)
next
  assume a: "strip (ContentItem_rec.title self) \<noteq> [] \<and> startswith_http (ContentItem_rec.url self) \<and>
      strip (ContentItem_rec.author_name self) \<noteq> [] \<and>
      ContentItem_rec.category self \<in> {CatEnum c, CatStr (CategoryType_value c)}"
  then show "post_init self = Inr (with_category self c)"
    by (auto simp: post_init_def startswith_http_def CategoryType_call_value)
  from a show "valid_ContentItem (with_category self c)"
    by (simp add: valid_ContentItem_def with_category_def)
next
  show "\<exists>r. CollectionResult_init now a_name a_url cat ok its err at = Inr r \<and>
          CollectionResult.success r = ok \<and> CollectionResult.error_message r = err \<and>
          CollectionResult.items r = (case its of None \<Rightarrow> [] | Some xs \<Rightarrow> xs)"
    by (simp add: CollectionResult_init_def)
qed

text \<open>
  The cases of the tests of the repository: an empty title, the URL \<open>invalid-url\<close>, and
  the valid item of \<open>test_create_valid_content_item\<close>; then a blank author name and a
  category that is no value of the enum.
\<close>

theorem construction_validation_examples:
  "post_init (with_category (example_item\<lparr>ContentItem_rec.title := []\<rparr>) (CatEnum VIDEO))
     = Inl (ValueError msg_title_empty) \<and>
   post_init (with_category (example_item\<lparr>ContentItem_rec.url := ''invalid-url''\<rparr>) (CatEnum VIDEO))
     = Inl (ValueError (msg_invalid_content_url ''invalid-url'')) \<and>
   post_init (with_category (example_item\<lparr>ContentItem_rec.author_name := ''  ''\<rparr>) (CatEnum VIDEO))
     = Inl (ValueError msg_author_name_empty) \<and>
   post_init (with_category example_item (CatStr ''Film''))
     = Inl (ValueError (msg_not_a_category ''Film'')) \<and>
   post_init (with_category example_item (CatStr ''Video'')) = Inr example_item \<and>
   post_init (with_category example_item (CatEnum VIDEO)) = Inr example_item"
proof -
  have ev: "strip ''Test Video'' \<noteq> []" "strip ''Test Author'' \<noteq> []" "strip ''  '' = []"
    "startswith_http ''https://youtube.com/watch?v=test123''"
    "\<not> startswith_http ''invalid-url''"
    by (simp_all add: strip_def isspace_def startswith_http_def)
  have same: "with_category (with_category example_item a) VIDEO = example_item" for a :: category_arg
    by (simp add: with_category_def example_item_def)
  note cv = construction_validation [where now = "''now''" and a_name = "''A''"
      and a_url = "''u''" and cat = VIDEO and ok = True and its = None and err = None
      and at = None]
  from cv [of "with_category (example_item\<lparr>ContentItem_rec.title := []\<rparr>) (CatEnum VIDEO)" "''s''" VIDEO]
  have 1: "post_init (with_category (example_item\<lparr>ContentItem_rec.title := []\<rparr>) (CatEnum VIDEO))
     = Inl (ValueError msg_title_empty)"
    by (simp add: with_category_def)
  from cv [of "with_category (example_item\<lparr>ContentItem_rec.url := ''invalid-url''\<rparr>) (CatEnum VIDEO)"
      "''s''" VIDEO]
  have 2: "post_init (with_category (example_item\<lparr>ContentItem_rec.url := ''invalid-url''\<rparr>) (CatEnum VIDEO))
     = Inl (ValueError (msg_invalid_content_url ''invalid-url''))"
    by (simp add: with_category_def example_item_def ev)
  from cv [of "with_category (example_item\<lparr>ContentItem_rec.author_name := ''  ''\<rparr>) (CatEnum VIDEO)"
      "''s''" VIDEO]
  have 3: "post_init (with_category (example_item\<lparr>ContentItem_rec.author_name := ''  ''\<rparr>) (CatEnum VIDEO))
     = Inl (ValueError msg_author_name_empty)"
    by (simp add: with_category_def example_item_def ev)
  from cv [of "with_category example_item (CatStr ''Film'')" "''Film''" VIDEO]
  have 4: "post_init (with_category example_item (CatStr ''Film''))
     = Inl (ValueError (msg_not_a_category ''Film''))"
    by (simp add: with_category_def example_item_def ev)
  from cv [of "with_category example_item (CatStr ''Video'')" "''s''" VIDEO]
  have 5: "post_init (with_category example_item (CatStr ''Video'')) = Inr example_item"
    by (simp add: same) (simp add: with_category_def example_item_def ev)
  from cv [of "with_category example_item (CatEnum VIDEO)" "''s''" VIDEO]
  have 6: "post_init (with_category example_item (CatEnum VIDEO)) = Inr example_item"
    by (simp add: same) (simp add: with_category_def example_item_def ev)
  from 1 2 3 4 5 6 show ?thesis by blast
qed

subsection \<open>Serialization\<close>

lemma to_dict_eq:
  "to_dict isoformat self =
     [(''title'', PStr (ContentItem_rec.title self)),
      (''url'', PStr (ContentItem_rec.url self)),
      (''author_name'', PStr (ContentItem_rec.author_name self)),
      (''author_url'', PStr (ContentItem_rec.author_url self)),
      (''category'', PStr (CategoryType_value (ContentItem_rec.category self))),
      (''description'', PStr (ContentItem_rec.description self)),
      (''publish_date'', opt_str (map_option isoformat (ContentItem_rec.publish_date self))),
      (''thumbnail_url'', opt_str (thumbnail_url self)),
      (''cover_image_url'', opt_str (cover_image_url self)),
      (''images'', PList (map PStr (images self))),
      (''duration'', opt_str (duration self)),
      (''views'', opt_int (views self)),
      (''tags'', PList (map PStr (tags self))),
      (''collected_at'', PStr (isoformat (ContentItem_rec.collected_at self))),
      (''content_id'', opt_str (ContentItem_rec.content_id self))]"
  by (simp add: to_dict_def asdict_def Let_def opt_str_def opt_datetime_def split: option.split)

lemma all_some_map_as_str: "all_some (map (as_str \<circ> PStr) xs) = Some xs"
  by (induction xs) simp_all

lemma as_opt_str_opt_str: "as_opt_str (opt_str v) = Some v"
  by (cases v) (simp_all add: opt_str_def)

lemma as_opt_int_opt_int: "as_opt_int (opt_int v) = Some v"
  by (cases v) (simp_all add: opt_int_def)

lemma as_opt_datetime_opt_datetime: "as_opt_datetime (opt_datetime v) = Some v"
  by (cases v) (simp_all add: opt_datetime_def)

lemma bind_kwargs_all_fields:
  "bind_kwargs ContentItem_fields ContentItem_required
     [(''title'', v1), (''url'', v2), (''author_name'', v3), (''author_url'', v4),
      (''category'', v5), (''description'', v6), (''publish_date'', v7),
      (''thumbnail_url'', v8), (''cover_image_url'', v9), (''images'', v10),
      (''duration'', v11), (''views'', v12), (''tags'', v13), (''collected_at'', v14),
      (''content_id'', v15)] =
   Inr [(''title'', v1), (''url'', v2), (''author_name'', v3), (''author_url'', v4),
      (''category'', v5), (''description'', v6), (''publish_date'', v7),
      (''thumbnail_url'', v8), (''cover_image_url'', v9), (''images'', v10),
      (''duration'', v11), (''views'', v12), (''tags'', v13), (''collected_at'', v14),
      (''content_id'', v15)]"
  by (simp add: bind_kwargs_def ContentItem_fields_def ContentItem_required_def)

lemma post_init_valid:
  "valid_ContentItem x \<Longrightarrow>
     post_init (with_category x (CatEnum (ContentItem_rec.category x))) = Inr x"
  by (auto simp: post_init_def valid_ContentItem_def with_category_def strip_def
      startswith_http_def)

lemma ContentItem_typed_asdict:
  "ContentItem_typed now
     [(''title'', PStr (ContentItem_rec.title x)),
      (''url'', PStr (ContentItem_rec.url x)),
      (''author_name'', PStr (ContentItem_rec.author_name x)),
      (''author_url'', PStr (ContentItem_rec.author_url x)),
      (''category'', PEnum (ContentItem_rec.category x)),
      (''description'', PStr (ContentItem_rec.description x)),
      (''publish_date'', opt_datetime (ContentItem_rec.publish_date x)),
      (''thumbnail_url'', opt_str (thumbnail_url x)),
      (''cover_image_url'', opt_str (cover_image_url x)),
      (''images'', PList (map PStr (images x))),
      (''duration'', opt_str (duration x)),
      (''views'', opt_int (views x)),
      (''tags'', PList (map PStr (tags x))),
      (''collected_at'', PDatetime (ContentItem_rec.collected_at x)),
      (''content_id'', opt_str (ContentItem_rec.content_id x))] =
   Some (with_category x (CatEnum (ContentItem_rec.category x)))"
  by (simp add: ContentItem_typed_def arg_def arg_default_def all_some_map_as_str
      as_opt_str_opt_str as_opt_int_opt_int as_opt_datetime_opt_datetime with_category_def)

lemma ContentItem_call_asdict:
  "valid_ContentItem x \<Longrightarrow> ContentItem_call now (asdict x) = Some (Inr x)"
  unfolding asdict_def ContentItem_call_def bind_kwargs_all_fields
  by (simp add: ContentItem_typed_asdict post_init_valid)

lemma from_dict_to_dict:
  fixes x :: "'dt ContentItem"
  assumes iso: "\<And>d. fromisoformat (isoformat d) = Inr d"
    and v: "valid_ContentItem x"
  shows "from_dict fromisoformat now (to_dict isoformat x) = Some (Inr x)"
proof -
  have 1: "category_to_enum (to_dict isoformat x) =
      Inr (AList.update ''category'' (PEnum (ContentItem_rec.category x)) (to_dict isoformat x))"
    by (simp add: to_dict_eq category_to_enum_def CategoryType_call_value)
  have 2: "isoformat_to_datetime fromisoformat ''publish_date''
       (AList.update ''category'' (PEnum (ContentItem_rec.category x)) (to_dict isoformat x)) =
      Inr (AList.update ''publish_date'' (opt_datetime (ContentItem_rec.publish_date x))
        (AList.update ''category'' (PEnum (ContentItem_rec.category x)) (to_dict isoformat x)))"
    by (cases "ContentItem_rec.publish_date x")
      (simp_all add: to_dict_eq isoformat_to_datetime_def iso opt_str_def opt_datetime_def)
  have 3: "isoformat_to_datetime fromisoformat ''collected_at''
       (AList.update ''publish_date'' (opt_datetime (ContentItem_rec.publish_date x))
        (AList.update ''category'' (PEnum (ContentItem_rec.category x)) (to_dict isoformat x))) =
      Inr (asdict x)"
    by (simp add: to_dict_eq isoformat_to_datetime_def iso asdict_def)
  show ?thesis
    by (simp add: from_dict_def 1 2 3 ContentItem_call_asdict [OF v])
qed

lemma CollectionResult_call_to_dict:
  "CollectionResult_call now (CollectionResult_to_dict isoformat r) =
     Some (Inl (TypeError (msg_unexpected_keyword ''total_items'')))"
  by (simp add: CollectionResult_call_def CollectionResult_to_dict_def bind_kwargs_def
      CollectionResult_fields_def)

text \<open>
  Claim C3 as stated fails for \<open>CollectionResult\<close>. The class has \<open>to_dict\<close> and no
  function back; the one way from a mapping to a result is the constructor, and it
  refuses the mapping of \<open>to_dict\<close>, which has the key \<open>total_items\<close> that is no field.
\<close>

theorem CollectionResult_roundtrip_counterexample:
  "CollectionResult_call ''2025-11-10T12:00:00'' (CollectionResult_to_dict id example_result)
     = Some (Inl (TypeError (msg_unexpected_keyword ''total_items''))) \<and>
   CollectionResult_call ''2025-11-10T12:00:00'' (CollectionResult_to_dict id example_result)
     \<noteq> Some (Inr example_result)"
  by (simp add: CollectionResult_call_to_dict)

text \<open>
  Claim C3, amended. For every valid \<open>ContentItem\<close>, \<open>from_dict\<close> of its \<open>to_dict\<close> is the
  item again, given that \<open>fromisoformat\<close> inverts \<open>isoformat\<close> (the law of the library);
  the mapping holds the category as its display string and the timestamps as
  \<open>isoformat\<close> renders them (\<open>None\<close> for an absent publication date). The mapping of a
  \<open>CollectionResult\<close> holds the category and the timestamp in the same way, the
  mappings of its items, each of which \<open>ContentItem.from_dict\<close> takes back to the item,
  and \<open>total_items\<close>, the number of items; no function of the source takes it back to a
  \<open>CollectionResult\<close>.
\<close>

theorem serialization_roundtrip:
  fixes x :: "'dt ContentItem" and r :: "'dt CollectionResult"
  assumes iso: "\<And>d. fromisoformat (isoformat d) = Inr d"
    and v: "valid_ContentItem x"
  shows "from_dict fromisoformat now (to_dict isoformat x) = Some (Inr x) \<and>
     map_of (to_dict isoformat x) ''category'' =
       Some (PStr (CategoryType_value (ContentItem_rec.category x))) \<and>
     map_of (to_dict isoformat x) ''collected_at'' =
       Some (PStr (isoformat (ContentItem_rec.collected_at x))) \<and>
     map_of (to_dict isoformat x) ''publish_date'' =
       Some (case ContentItem_rec.publish_date x of None \<Rightarrow> PNone | Some d \<Rightarrow> PStr (isoformat d)) \<and>
     map_of (CollectionResult_to_dict isoformat r) ''category'' =
       Some (PStr (CategoryType_value (CollectionResult.category r))) \<and>
     map_of (CollectionResult_to_dict isoformat r) ''collected_at'' =
       Some (PStr (isoformat (CollectionResult.collected_at r))) \<and>
     map_of (CollectionResult_to_dict isoformat r) ''items'' =
       Some (PList (map (\<lambda>item. PDict (to_dict isoformat item)) (CollectionResult.items r))) \<and>
     map_of (CollectionResult_to_dict isoformat r) ''total_items'' =
       Some (PInt (int (length (CollectionResult.items r)))) \<and>
     (\<forall>item \<in> set (CollectionResult.items r). valid_ContentItem item \<longrightarrow>
        from_dict fromisoformat now (to_dict isoformat item) = Some (Inr item))"
proof -
  have "from_dict fromisoformat now (to_dict isoformat x) = Some (Inr x)"
    by (rule from_dict_to_dict [OF iso v])
  moreover have "\<forall>item \<in> set (CollectionResult.items r). valid_ContentItem item \<longrightarrow>
        from_dict fromisoformat now (to_dict isoformat item) = Some (Inr item)"
    using from_dict_to_dict [OF iso] by blast
  moreover have "map_of (to_dict isoformat x) ''publish_date'' =
       Some (case ContentItem_rec.publish_date x of None \<Rightarrow> PNone | Some d \<Rightarrow> PStr (isoformat d))"
    by (simp add: to_dict_eq opt_str_def split: option.split)
  ultimately show ?thesis
    by (simp add: to_dict_eq CollectionResult_to_dict_def)
qed

text \<open>
  The item of \<open>test_create_valid_content_item\<close>, with datetimes that are their own ISO
  strings, so that \<open>isoformat\<close> is the identity and \<open>fromisoformat\<close> accepts every string.
\<close>

theorem serialization_roundtrip_example:
  "(\<forall>d :: string. (Inr :: string \<Rightarrow> exn + string) ((\<lambda>d. d) d) = Inr d) \<and>
   valid_ContentItem example_item \<and>
   from_dict Inr ''2025-11-10T12:00:00'' (to_dict (\<lambda>d. d) example_item) = Some (Inr example_item) \<and>
   map_of (to_dict (\<lambda>d. d) example_item) ''category'' = Some (PStr ''Video'') \<and>
   map_of (to_dict (\<lambda>d. d) example_item) ''publish_date'' = Some (PStr ''2025-11-10T10:00:00'') \<and>
   map_of (CollectionResult_to_dict (\<lambda>d. d) example_result) ''total_items'' = Some (PInt 1)"
proof -
  have v: "valid_ContentItem example_item"
    by (simp add: valid_ContentItem_def example_item_def strip_def isspace_def
        startswith_http_def)
  have iso: "(Inr :: string \<Rightarrow> exn + string) ((\<lambda>d. d) d) = Inr d" for d :: string
    by simp
  from serialization_roundtrip [of Inr "\<lambda>d. d", OF iso v, of "''2025-11-10T12:00:00''" example_result]
  show ?thesis
    using v by (simp add: example_item_def example_result_def)
qed

section \<open>Properties of the snapshot merge\<close>

subsection \<open>The loops in closed form\<close>

lemma author_name_tagged [simp]: "result_doc.author_name (tagged old_data r) = result_doc.author_name r"
  by (simp add: tagged_def)

lemma items_tagged [simp]: "result_doc.items (tagged old_data r) = result_doc.items r"
  by (simp add: tagged_def)

lemma picks_names_subset: "set (map result_doc.author_name (picks old_data rs pending)) \<subseteq> pending"
  by (induction rs arbitrary: pending) (auto split: if_splits)

lemma picks_names_distinct: "distinct (map result_doc.author_name (picks old_data rs pending))"
proof (induction rs arbitrary: pending)
  case Nil
  show ?case by simp
next
  case (Cons r rs)
  have "result_doc.author_name r \<notin>
      set (map result_doc.author_name (picks old_data rs (pending - {result_doc.author_name r})))"
    using picks_names_subset [of old_data rs "pending - {result_doc.author_name r}"] by auto
  with Cons.IH show ?case by simp
qed

lemma picks_filter:
  "filter (\<lambda>p. result_doc.author_name p = a) (picks old_data rs pending) =
     (if a \<in> pending then
        (case find (\<lambda>r. result_doc.author_name r = a \<and> result_doc.success r) rs of
           Some r \<Rightarrow> [tagged old_data r]
         | None \<Rightarrow> [])
      else [])"
proof (induction rs arbitrary: pending)
  case Nil
  show ?case by simp
next
  case (Cons r rs)
  show ?case
  proof (cases "result_doc.author_name r \<in> pending \<and> result_doc.success r")
    case True
    then show ?thesis
      using Cons.IH [of "pending - {result_doc.author_name r}"]
      by (auto split: option.splits)
  next
    case False
    then show ?thesis
      using Cons.IH [of pending] by (auto split: option.splits)
  qed
qed

lemma merged_with_Nil [simp]: "merged_with latest_data [] = latest_data"
  by (simp add: merged_with_def)

lemma merged_with_append:
  assumes "set (map result_doc.author_name ps) \<inter> set (map result_doc.author_name qs) = {}"
  shows "merged_with (merged_with latest_data ps) qs = merged_with latest_data (ps @ qs)"
proof -
  have "filter (\<lambda>r. result_doc.author_name r \<notin> result_doc.author_name ` set qs) ps = ps"
    using assms by (auto simp: filter_id_conv)
  then show ?thesis
    by (simp add: merged_with_def conj_commute)
qed

lemma backfill_eq:
  "backfill old_data rs (latest_data, pending) =
     (merged_with latest_data (picks old_data rs pending),
      pending - set (map result_doc.author_name (picks old_data rs pending)))"
proof (induction rs arbitrary: latest_data pending)
  case Nil
  show ?case by simp
next
  case (Cons r rs)
  show ?case
  proof (cases "result_doc.author_name r \<in> pending \<and> result_doc.success r")
    case False
    then show ?thesis using Cons.IH by auto
  next
    case True
    let ?a = "result_doc.author_name r"
    let ?ps = "picks old_data rs (pending - {?a})"
    have step: "latest_data
          \<lparr>results :=
             filter (\<lambda>x. result_doc.author_name x \<noteq> ?a) (results latest_data)
             @ [r\<lparr>from_history := Some True,
                   history_collected_at := Some (snapshot.collected_at old_data)\<rparr>],
           successful_authors := successful_authors latest_data + 1,
           failed_authors := failed_authors latest_data - 1,
           total_items := snapshot.total_items latest_data + int (length (result_doc.items r))\<rparr>
        = merged_with latest_data [tagged old_data r]"
      by (simp add: merged_with_def tagged_def)
    have disj: "set (map result_doc.author_name [tagged old_data r]) \<inter>
        set (map result_doc.author_name ?ps) = {}"
      using picks_names_subset [of old_data rs "pending - {?a}"] by auto
    have "backfill old_data (r # rs) (latest_data, pending) =
        backfill old_data rs (merged_with latest_data [tagged old_data r], pending - {?a})"
      using True by (simp add: step)
    also have "\<dots> = (merged_with (merged_with latest_data [tagged old_data r]) ?ps,
        pending - {?a} - set (map result_doc.author_name ?ps))"
      by (rule Cons.IH)
    also have "\<dots> = (merged_with latest_data (picks old_data (r # rs) pending),
        pending - set (map result_doc.author_name (picks old_data (r # rs) pending)))"
      using True merged_with_append [OF disj, of latest_data] by auto
    finally show ?thesis .
  qed
qed

lemma scan_picks_empty [simp]: "scan_picks older {} = []"
  by (cases older) auto

lemma scan_loads_empty [simp]: "scan_loads older {} = []"
  by (cases older) auto

lemma scan_picks_names_subset:
  "set (map result_doc.author_name (scan_picks older pending)) \<subseteq> pending"
proof (induction older arbitrary: pending)
  case Nil
  show ?case by simp
next
  case (Cons fl older)
  obtain f loaded where fl: "fl = (f, loaded)" by (cases fl)
  show ?case
  proof (cases loaded)
    case None
    then show ?thesis using Cons.IH [of pending] fl by auto
  next
    case (Some old_data)
    let ?ps = "picks old_data (results old_data) pending"
    have "set (map result_doc.author_name ?ps) \<subseteq> pending"
      by (rule picks_names_subset)
    moreover have "set (map result_doc.author_name
        (scan_picks older (pending - set (map result_doc.author_name ?ps)))) \<subseteq> pending"
      using Cons.IH [of "pending - set (map result_doc.author_name ?ps)"] by blast
    ultimately show ?thesis using fl Some by auto
  qed
qed

lemma scan_picks_names_distinct:
  "distinct (map result_doc.author_name (scan_picks older pending))"
proof (induction older arbitrary: pending)
  case Nil
  show ?case by simp
next
  case (Cons fl older)
  obtain f loaded where fl: "fl = (f, loaded)" by (cases fl)
  show ?case
  proof (cases loaded)
    case None
    then show ?thesis using Cons.IH [of pending] fl by auto
  next
    case (Some old_data)
    let ?ps = "picks old_data (results old_data) pending"
    let ?rest = "scan_picks older (pending - set (map result_doc.author_name ?ps))"
    have "set (map result_doc.author_name ?ps) \<inter> set (map result_doc.author_name ?rest) = {}"
      using scan_picks_names_subset [of older "pending - set (map result_doc.author_name ?ps)"]
      by blast
    then show ?thesis
      using fl Some picks_names_distinct [of old_data "results old_data" pending]
        Cons.IH [of "pending - set (map result_doc.author_name ?ps)"]
      by auto
  qed
qed

lemma scan_picks_filter:
  "filter (\<lambda>p. result_doc.author_name p = a) (scan_picks older pending) =
     (if a \<in> pending then (case history a older of Some h \<Rightarrow> [h] | None \<Rightarrow> []) else [])"
proof (induction older arbitrary: pending)
  case Nil
  show ?case by simp
next
  case (Cons fl older)
  obtain f loaded where fl: "fl = (f, loaded)" by (cases fl)
  show ?case
  proof (cases "a \<in> pending")
    case False
    then have "a \<notin> set (map result_doc.author_name (scan_picks (fl # older) pending))"
      using scan_picks_names_subset [of "fl # older" pending] by blast
    then have "filter (\<lambda>p. result_doc.author_name p = a) (scan_picks (fl # older) pending) = []"
      by (auto simp: filter_empty_conv)
    with False show ?thesis by simp
  next
    case True
    then have ne: "pending \<noteq> {}" by blast
    show ?thesis
    proof (cases loaded)
      case None
      then show ?thesis using Cons.IH [of pending] fl True ne by simp
    next
      case (Some old_data)
      let ?ps = "picks old_data (results old_data) pending"
      let ?pending' = "pending - set (map result_doc.author_name ?ps)"
      show ?thesis
      proof (cases "find (\<lambda>r. result_doc.author_name r = a \<and> result_doc.success r) (results old_data)")
        case None
        then have "filter (\<lambda>p. result_doc.author_name p = a) ?ps = []"
          using picks_filter [of a old_data "results old_data" pending] True by simp
        moreover from this have "a \<in> ?pending'"
          using True by (auto simp: filter_empty_conv)
        ultimately show ?thesis
          using Cons.IH [of ?pending'] fl Some None True ne by simp
      next
        case (Some r)
        then have ps: "filter (\<lambda>p. result_doc.author_name p = a) ?ps = [tagged old_data r]"
          using picks_filter [of a old_data "results old_data" pending] True by simp
        have "filter (\<lambda>p. result_doc.author_name p = a) ?ps \<noteq> []"
          by (simp add: ps)
        then obtain p where "p \<in> set ?ps" "result_doc.author_name p = a"
          by (auto simp: filter_empty_conv)
        then have "a \<in> set (map result_doc.author_name ?ps)"
          by auto
        then have "a \<notin> ?pending'"
          by simp
        then have "filter (\<lambda>p. result_doc.author_name p = a) (scan_picks older ?pending') = []"
          by (simp only: Cons.IH [of ?pending'] if_False)
        with ps show ?thesis
          using fl \<open>loaded = Some old_data\<close> Some True ne by simp
      qed
    qed
  qed
qed

lemma scan_history_eq:
  "scan_history older ((latest_data, pending), loads) =
     ((merged_with latest_data (scan_picks older pending),
       pending - set (map result_doc.author_name (scan_picks older pending))),
      loads @ scan_loads older pending)"
proof (induction older arbitrary: latest_data pending loads)
  case Nil
  show ?case by simp
next
  case (Cons fl older)
  obtain f loaded where fl: "fl = (f, loaded)" by (cases fl)
  show ?case
  proof (cases "pending = {}")
    case True
    then show ?thesis using fl by simp
  next
    case ne: False
    show ?thesis
    proof (cases loaded)
      case None
      then show ?thesis using fl ne Cons.IH by simp
    next
      case (Some old_data)
      let ?ps = "picks old_data (results old_data) pending"
      let ?pending' = "pending - set (map result_doc.author_name ?ps)"
      have disj: "set (map result_doc.author_name ?ps) \<inter>
          set (map result_doc.author_name (scan_picks older ?pending')) = {}"
        using scan_picks_names_subset [of older ?pending'] by blast
      have "scan_history (fl # older) ((latest_data, pending), loads) =
          scan_history older ((merged_with latest_data ?ps, ?pending'), loads @ [f])"
        using fl ne Some by (simp add: backfill_eq)
      also have "\<dots> = ((merged_with (merged_with latest_data ?ps) (scan_picks older ?pending'),
            ?pending' - set (map result_doc.author_name (scan_picks older ?pending'))),
          (loads @ [f]) @ scan_loads older ?pending')"
        by (rule Cons.IH)
      also have "\<dots> = ((merged_with latest_data (scan_picks (fl # older) pending),
            pending - set (map result_doc.author_name (scan_picks (fl # older) pending))),
          loads @ scan_loads (fl # older) pending)"
        using fl ne Some merged_with_append [OF disj, of latest_data] by auto
      finally show ?thesis .
    qed
  qed
qed

lemma load_latest_data_eq:
  "load_latest_data ((latest_file, Some latest_data) # older) =
     (Some (merged_with latest_data (scan_picks older (failed_names latest_data))),
      latest_file # scan_loads older (failed_names latest_data))"
  by (simp add: load_latest_data_def Let_def scan_history_eq)

subsection \<open>The history of an author\<close>

lemma find_success_None:
  "find (\<lambda>r. result_doc.author_name r = a \<and> result_doc.success r) rs = None \<longleftrightarrow>
     (\<forall>r \<in> set rs. result_doc.author_name r = a \<longrightarrow> \<not> result_doc.success r)"
  by (induction rs) auto

lemma history_None_iff:
  "history a older = None \<longleftrightarrow>
     (\<forall>(f, loaded) \<in> set older. \<forall>old_data. loaded = Some old_data \<longrightarrow>
        (\<forall>r \<in> set (results old_data). result_doc.author_name r = a \<longrightarrow> \<not> result_doc.success r))"
proof (induction older)
  case Nil
  show ?case by simp
next
  case (Cons fl older)
  obtain f loaded where fl: "fl = (f, loaded)" by (cases fl)
  show ?case
  proof (cases loaded)
    case None
    then show ?thesis using Cons.IH fl by simp
  next
    case (Some old_data)
    show ?thesis
    proof (cases "find (\<lambda>r. result_doc.author_name r = a \<and> result_doc.success r) (results old_data)")
      case None
      then have "\<forall>r \<in> set (results old_data). result_doc.author_name r = a \<longrightarrow> \<not> result_doc.success r"
        by (simp add: find_success_None)
      then show ?thesis using Cons.IH fl Some None by simp
    next
      case (Some r)
      then have "\<not> (\<forall>r \<in> set (results old_data). result_doc.author_name r = a \<longrightarrow> \<not> result_doc.success r)"
        using find_success_None [of a "results old_data"] by simp
      then show ?thesis using fl \<open>loaded = Some old_data\<close> Some by auto
    qed
  qed
qed

lemma history_Some_origin:
  "history a older = Some h \<Longrightarrow>
     \<exists>pre f old_data post r.
        older = pre @ (f, Some old_data) # post \<and> history a pre = None \<and>
        find (\<lambda>r. result_doc.author_name r = a \<and> result_doc.success r) (results old_data) = Some r \<and>
        h = tagged old_data r"
proof (induction older)
  case Nil
  then show ?case by simp
next
  case (Cons fl older)
  obtain f loaded where fl: "fl = (f, loaded)" by (cases fl)
  show ?case
  proof (cases loaded)
    case None
    with Cons.prems fl have "history a older = Some h" by simp
    from Cons.IH [OF this] obtain pre f' old_data post r where
      *: "older = pre @ (f', Some old_data) # post" "history a pre = None"
        "find (\<lambda>r. result_doc.author_name r = a \<and> result_doc.success r) (results old_data) = Some r"
        "h = tagged old_data r" by blast
    have "fl # older = ((f, None) # pre) @ (f', Some old_data) # post \<and>
        history a ((f, None) # pre) = None"
      using * fl None by simp
    with * show ?thesis by blast
  next
    case (Some old_data)
    show ?thesis
    proof (cases "find (\<lambda>r. result_doc.author_name r = a \<and> result_doc.success r) (results old_data)")
      case (Some r)
      then have "h = tagged old_data r"
        using Cons.prems fl \<open>loaded = Some old_data\<close> by simp
      moreover have "fl # older = [] @ (f, Some old_data) # older \<and> history a [] = None"
        using fl \<open>loaded = Some old_data\<close> by simp
      ultimately show ?thesis using Some by blast
    next
      case None
      with Cons.prems fl Some have "history a older = Some h" by simp
      from Cons.IH [OF this] obtain pre f' od post r where
        *: "older = pre @ (f', Some od) # post" "history a pre = None"
          "find (\<lambda>r. result_doc.author_name r = a \<and> result_doc.success r) (results od) = Some r"
          "h = tagged od r" by blast
      have "fl # older = ((f, Some old_data) # pre) @ (f', Some od) # post \<and>
          history a ((f, Some old_data) # pre) = None"
        using * fl Some None by simp
      with * show ?thesis by blast
    qed
  qed
qed

subsection \<open>The merged view, author by author\<close>

lemma filter_author_excluding:
  "filter (\<lambda>x. result_doc.author_name x \<notin> S \<and> result_doc.author_name x = a) xs =
     (if a \<in> S then [] else filter (\<lambda>x. result_doc.author_name x = a) xs)"
  by (induction xs) auto

lemma filter_author_none:
  "a \<notin> result_doc.author_name ` set ps \<Longrightarrow> filter (\<lambda>p. result_doc.author_name p = a) ps = []"
  by (auto simp: filter_empty_conv)

lemma merged_with_filter:
  "filter (\<lambda>r. result_doc.author_name r = a) (results (merged_with latest_data ps)) =
     (if a \<in> set (map result_doc.author_name ps)
      then filter (\<lambda>p. result_doc.author_name p = a) ps
      else filter (\<lambda>r. result_doc.author_name r = a) (results latest_data))"
  by (simp add: merged_with_def filter_author_excluding filter_author_none)

lemma scan_picks_names:
  "set (map result_doc.author_name (scan_picks older pending)) =
     {a \<in> pending. history a older \<noteq> None}"
proof -
  have "a \<in> set (map result_doc.author_name (scan_picks older pending)) \<longleftrightarrow>
      filter (\<lambda>p. result_doc.author_name p = a) (scan_picks older pending) \<noteq> []" for a
    by (auto simp: filter_empty_conv)
  then have "a \<in> set (map result_doc.author_name (scan_picks older pending)) \<longleftrightarrow>
      a \<in> pending \<and> history a older \<noteq> None" for a
    by (simp add: scan_picks_filter split: option.splits)
  then show ?thesis by blast
qed

lemma scan_picks_history:
  assumes "p \<in> set (scan_picks older pending)"
  shows "history (result_doc.author_name p) older = Some p"
proof -
  let ?a = "result_doc.author_name p"
  have "p \<in> set (filter (\<lambda>q. result_doc.author_name q = ?a) (scan_picks older pending))"
    using assms by simp
  then have "p \<in> set (if ?a \<in> pending
      then (case history ?a older of Some h \<Rightarrow> [h] | None \<Rightarrow> []) else [])"
    by (simp only: scan_picks_filter)
  then show ?thesis
    by (cases "?a \<in> pending"; cases "history ?a older") simp_all
qed

lemma view_filter:
  "filter (\<lambda>r. result_doc.author_name r = a)
       (results (merged_with latest_data (scan_picks older (failed_names latest_data)))) =
     (if a \<in> resolved latest_data older then [the (history a older)]
      else filter (\<lambda>r. result_doc.author_name r = a) (results latest_data))"
  by (auto simp: merged_with_filter scan_picks_names resolved_def scan_picks_filter
      simp del: set_map)

lemma view_counters:
  fixes latest_data :: "'dt snapshot" and older :: "'dt store"
  defines "merged \<equiv> merged_with latest_data (scan_picks older (failed_names latest_data))"
  shows "successful_authors merged =
           successful_authors latest_data + int (card (resolved latest_data older))"
    and "failed_authors merged =
           failed_authors latest_data - int (card (resolved latest_data older))"
    and "snapshot.total_items merged =
           snapshot.total_items latest_data
           + (\<Sum>a \<in> resolved latest_data older. int (length (result_doc.items (the (history a older)))))"
    and "total_authors merged = total_authors latest_data"
    and "snapshot.collected_at merged = snapshot.collected_at latest_data"
proof -
  let ?ps = "scan_picks older (failed_names latest_data)"
  let ?names = "map result_doc.author_name ?ps"
  have d: "distinct ?names" by (rule scan_picks_names_distinct)
  have s: "set ?names = resolved latest_data older"
    by (simp only: scan_picks_names resolved_def)
  have len: "length ?ps = card (resolved latest_data older)"
    using distinct_card [OF d] s by simp
  have "sum_list (map (\<lambda>p. int (length (result_doc.items p))) ?ps) =
      sum_list (map (\<lambda>a. int (length (result_doc.items (the (history a older))))) ?names)"
    by (simp add: comp_def scan_picks_history cong: map_cong)
  also have "\<dots> = (\<Sum>a \<in> set ?names. int (length (result_doc.items (the (history a older)))))"
    by (rule sum_list_distinct_conv_sum_set [OF d])
  finally have tot: "sum_list (map (\<lambda>p. int (length (result_doc.items p))) ?ps) =
      (\<Sum>a \<in> resolved latest_data older. int (length (result_doc.items (the (history a older)))))"
    by (simp only: s)
  show "successful_authors merged =
           successful_authors latest_data + int (card (resolved latest_data older))"
    by (simp add: merged_def merged_with_def len)
  show "failed_authors merged =
           failed_authors latest_data - int (card (resolved latest_data older))"
    by (simp add: merged_def merged_with_def len)
  show "snapshot.total_items merged =
           snapshot.total_items latest_data
           + (\<Sum>a \<in> resolved latest_data older. int (length (result_doc.items (the (history a older)))))"
    by (simp add: merged_def merged_with_def tot)
  show "total_authors merged = total_authors latest_data"
    by (simp add: merged_def merged_with_def)
  show "snapshot.collected_at merged = snapshot.collected_at latest_data"
    by (simp add: merged_def merged_with_def)
qed

subsection \<open>Scanning a store in two parts\<close>

lemma scan_picks_append:
  "scan_picks (pre @ rest) pending =
     scan_picks pre pending
     @ scan_picks rest (pending - set (map result_doc.author_name (scan_picks pre pending)))"
proof (induction pre arbitrary: pending)
  case Nil
  show ?case by simp
next
  case (Cons fl pre)
  obtain f loaded where fl: "fl = (f, loaded)" by (cases fl)
  show ?case
  proof (cases "pending = {}")
    case True
    then show ?thesis using fl by simp
  next
    case False
    then show ?thesis
      using fl Cons.IH by (cases loaded) (simp_all add: Diff_eq Int_assoc Un_Diff)
  qed
qed

lemma scan_loads_append:
  "scan_loads (pre @ rest) pending =
     scan_loads pre pending
     @ scan_loads rest (pending - set (map result_doc.author_name (scan_picks pre pending)))"
proof (induction pre arbitrary: pending)
  case Nil
  show ?case by simp
next
  case (Cons fl pre)
  obtain f loaded where fl: "fl = (f, loaded)" by (cases fl)
  show ?case
  proof (cases "pending = {}")
    case True
    then show ?thesis using fl by simp
  next
    case False
    then show ?thesis
      using fl Cons.IH by (cases loaded) (simp_all add: Diff_eq Int_assoc Un_Diff)
  qed
qed

lemma scan_loads_subset: "set (scan_loads older pending) \<subseteq> fst ` set older"
proof (induction older arbitrary: pending)
  case Nil
  show ?case by simp
next
  case (Cons fl older)
  obtain f loaded where fl: "fl = (f, loaded)" by (cases fl)
  show ?case
    using Cons.IH fl by (auto split: option.splits)
qed

lemma scan_picks_unreadable:
  "scan_picks (pre @ (f, None) # post) pending = scan_picks (pre @ post) pending"
proof -
  have "scan_picks ((f, None) # post) p = scan_picks post p" for p
    by simp
  then show ?thesis by (simp only: scan_picks_append)
qed

lemma all_resolved_none_pending:
  assumes "\<forall>a \<in> pending. history a older \<noteq> None"
  shows "pending - set (map result_doc.author_name (scan_picks older pending)) = {}"
  using assms by (auto simp only: scan_picks_names)

subsection \<open>Backfill from history\<close>

text \<open>
  Claim C1. When the newest snapshot holds a failed entry for an author \<open>Y\<close> and an
  older snapshot holds a successful result for \<open>Y\<close>, the merged view has exactly one
  entry for \<open>Y\<close>: the history of \<open>Y\<close>, that is the first successful result for
  \<open>Y\<close> in the older snapshots scanned newest to oldest, with \<open>from_history\<close> set and
  \<open>history_collected_at\<close> the \<open>collected_at\<close> of the snapshot it comes from. The
  counters of the view are those of the newest snapshot with one more successful and
  one less failed author per backfilled author, and \<open>total_items\<close> raised by the number
  of items of each backfilled result; with \<open>Y\<close> the only backfilled author that is
  \<open>+1\<close>, \<open>-1\<close> and the items of the history of \<open>Y\<close>. Once every failed author has
  a history among the files \<open>older\<close>, no file after them is loaded.
\<close>

theorem merge_backfill:
  fixes latest_data :: "'dt snapshot" and older :: "'dt store"
  assumes failed: "Y \<in> failed_names latest_data"
    and old: "(f, Some old_data) \<in> set older" "r \<in> set (results old_data)"
      "result_doc.author_name r = Y" "result_doc.success r"
  shows "\<exists>merged h.
      fst (load_latest_data ((latest_file, Some latest_data) # older)) = Some merged \<and>
      history Y older = Some h \<and>
      filter (\<lambda>x. result_doc.author_name x = Y) (results merged) = [h] \<and>
      result_doc.success h \<and> from_history h = Some True \<and>
      (\<exists>pre f' od post r'.
         older = pre @ (f', Some od) # post \<and> history Y pre = None \<and>
         find (\<lambda>x. result_doc.author_name x = Y \<and> result_doc.success x) (results od) = Some r' \<and>
         h = r'\<lparr>from_history := Some True, history_collected_at := Some (snapshot.collected_at od)\<rparr>) \<and>
      Y \<in> resolved latest_data older \<and>
      successful_authors merged =
        successful_authors latest_data + int (card (resolved latest_data older)) \<and>
      failed_authors merged =
        failed_authors latest_data - int (card (resolved latest_data older)) \<and>
      snapshot.total_items merged =
        snapshot.total_items latest_data
        + (\<Sum>a \<in> resolved latest_data older. int (length (result_doc.items (the (history a older))))) \<and>
      (resolved latest_data older = {Y} \<longrightarrow>
         successful_authors merged = successful_authors latest_data + 1 \<and>
         failed_authors merged = failed_authors latest_data - 1 \<and>
         snapshot.total_items merged =
           snapshot.total_items latest_data + int (length (result_doc.items h))) \<and>
      ((\<forall>a \<in> failed_names latest_data. history a older \<noteq> None) \<longrightarrow>
         (\<forall>rest. snd (load_latest_data ((latest_file, Some latest_data) # older @ rest)) =
                 snd (load_latest_data ((latest_file, Some latest_data) # older)) \<and>
               set (snd (load_latest_data ((latest_file, Some latest_data) # older @ rest)))
                 \<subseteq> insert latest_file (fst ` set older)))"
proof -
  let ?merged = "merged_with latest_data (scan_picks older (failed_names latest_data))"
  have "history Y older \<noteq> None"
  proof
    assume "history Y older = None"
    then have "\<forall>(f, loaded) \<in> set older. \<forall>old_data. loaded = Some old_data \<longrightarrow>
        (\<forall>r \<in> set (results old_data). result_doc.author_name r = Y \<longrightarrow> \<not> result_doc.success r)"
      by (simp only: history_None_iff)
    with old(1) have "\<forall>r \<in> set (results old_data). result_doc.author_name r = Y \<longrightarrow> \<not> result_doc.success r"
      by fastforce
    with old(2-4) show False by blast
  qed
  then obtain h where h: "history Y older = Some h" by blast
  from history_Some_origin [OF h] obtain pre f' od post r' where
    origin: "older = pre @ (f', Some od) # post" "history Y pre = None"
      "find (\<lambda>x. result_doc.author_name x = Y \<and> result_doc.success x) (results od) = Some r'"
      "h = tagged od r'" by blast
  from origin(3) have "result_doc.success r'"
    by (auto simp: find_Some_iff)
  with origin(4) have tag: "result_doc.success h" "from_history h = Some True"
    "h = r'\<lparr>from_history := Some True, history_collected_at := Some (snapshot.collected_at od)\<rparr>"
    by (simp_all add: tagged_def)
  have res: "Y \<in> resolved latest_data older"
    using failed h by (simp add: resolved_def)
  have view: "fst (load_latest_data ((latest_file, Some latest_data) # older)) = Some ?merged"
    by (simp add: load_latest_data_eq)
  have entry: "filter (\<lambda>x. result_doc.author_name x = Y) (results ?merged) = [h]"
    using res h by (simp add: view_filter)
  have single: "resolved latest_data older = {Y} \<longrightarrow>
         successful_authors ?merged = successful_authors latest_data + 1 \<and>
         failed_authors ?merged = failed_authors latest_data - 1 \<and>
         snapshot.total_items ?merged =
           snapshot.total_items latest_data + int (length (result_doc.items h))"
    using h by (simp add: view_counters)
  have stop: "(\<forall>a \<in> failed_names latest_data. history a older \<noteq> None) \<longrightarrow>
         (\<forall>rest. snd (load_latest_data ((latest_file, Some latest_data) # older @ rest)) =
                 snd (load_latest_data ((latest_file, Some latest_data) # older)) \<and>
               set (snd (load_latest_data ((latest_file, Some latest_data) # older @ rest)))
                 \<subseteq> insert latest_file (fst ` set older))"
  proof (intro impI allI conjI)
    fix rest
    assume all: "\<forall>a \<in> failed_names latest_data. history a older \<noteq> None"
    have eq: "scan_loads (older @ rest) (failed_names latest_data) =
        scan_loads older (failed_names latest_data)"
      by (simp only: scan_loads_append all_resolved_none_pending [OF all] scan_loads_empty
          append_Nil2)
    then show "snd (load_latest_data ((latest_file, Some latest_data) # older @ rest)) =
        snd (load_latest_data ((latest_file, Some latest_data) # older))"
      by (simp only: load_latest_data_eq snd_conv)
    show "set (snd (load_latest_data ((latest_file, Some latest_data) # older @ rest)))
        \<subseteq> insert latest_file (fst ` set older)"
      using scan_loads_subset [of older "failed_names latest_data"]
      by (auto simp only: load_latest_data_eq snd_conv eq list.set)
  qed
  from view h entry tag origin(1,2,3) res single stop show ?thesis
    using view_counters(1-3) [of latest_data older] by blast
qed

text \<open>
  The scenario of the specification: the newest snapshot has \<open>X\<close> successful with 2
  items and \<open>Y\<close> failed, the older one has \<open>Y\<close> successful with 3 items. The view has
  \<open>Y\<close> with 3 items, taken from history, and 5 items in total.
\<close>

theorem merge_backfill_scenario:
  "''Y'' \<in> failed_names scenario_latest \<and>
   (''collection_20251110_080000.json'', Some scenario_old)
     \<in> set [(''collection_20251110_080000.json'', Some scenario_old)] \<and>
   scenario_old_result \<in> set (results scenario_old) \<and>
   result_doc.author_name scenario_old_result = ''Y'' \<and>
   result_doc.success scenario_old_result \<and>
   (\<exists>merged h.
      fst (load_latest_data
             [(''collection_20251111_080000.json'', Some scenario_latest),
              (''collection_20251110_080000.json'', Some scenario_old)]) = Some merged \<and>
      filter (\<lambda>x. result_doc.author_name x = ''Y'') (results merged) = [h] \<and>
      length (result_doc.items h) = 3 \<and>
      from_history h = Some True \<and>
      history_collected_at h = Some ''2025-11-10T08:00:00'' \<and>
      successful_authors merged = 2 \<and> failed_authors merged = 0 \<and>
      snapshot.total_items merged = 5)"
proof -
  let ?older = "[(''collection_20251110_080000.json'', Some scenario_old)]"
  have a1: "''Y'' \<in> failed_names scenario_latest"
    by (simp add: failed_names_def scenario_latest_def)
  have a2: "(''collection_20251110_080000.json'', Some scenario_old) \<in> set ?older"
    by simp
  have a3: "scenario_old_result \<in> set (results scenario_old)"
    by (simp add: scenario_old_def)
  have a4: "result_doc.author_name scenario_old_result = ''Y''"
    by (simp add: scenario_old_result_def)
  have a5: "result_doc.success scenario_old_result"
    by (simp add: scenario_old_result_def)
  have hist: "history ''Y'' ?older = Some (tagged scenario_old scenario_old_result)"
    by (simp add: scenario_old_def scenario_old_result_def)
  have fn: "failed_names scenario_latest = {''Y''}"
    by (simp add: failed_names_def scenario_latest_def)
  have res: "resolved scenario_latest ?older = {''Y''}"
    unfolding resolved_def fn using hist by auto
  from merge_backfill [OF a1 a2 a3 a4 a5, of "''collection_20251111_080000.json''"]
  obtain merged h where
    m: "fst (load_latest_data ((''collection_20251111_080000.json'', Some scenario_latest) # ?older))
          = Some merged"
      "history ''Y'' ?older = Some h"
      "filter (\<lambda>x. result_doc.author_name x = ''Y'') (results merged) = [h]"
      "from_history h = Some True"
      "resolved scenario_latest ?older = {''Y''} \<longrightarrow>
         successful_authors merged = successful_authors scenario_latest + 1 \<and>
         failed_authors merged = failed_authors scenario_latest - 1 \<and>
         snapshot.total_items merged =
           snapshot.total_items scenario_latest + int (length (result_doc.items h))"
    by blast
  from m(2) hist have h: "h = tagged scenario_old scenario_old_result" by simp
  have "length (result_doc.items h) = 3"
    "history_collected_at h = Some ''2025-11-10T08:00:00''"
    by (simp_all add: h tagged_def scenario_old_def scenario_old_result_def)
  moreover have "successful_authors merged = 2" "failed_authors merged = 0"
    "snapshot.total_items merged = 5"
    using m(5) res \<open>length (result_doc.items h) = 3\<close>
    by (simp_all add: scenario_latest_def)
  ultimately show ?thesis
    using a1 a2 a3 a4 a5 m(1,3,4) by blast
qed

subsection \<open>No backfill, and the counters\<close>

lemma distinct_map_filter_length:
  "distinct (map f xs) \<Longrightarrow> a \<in> set (map f xs) \<Longrightarrow> length (filter (\<lambda>x. f x = a) xs) = 1"
proof (induction xs)
  case Nil
  then show ?case by simp
next
  case (Cons x xs)
  show ?case
  proof (cases "f x = a")
    case True
    with Cons.prems have "a \<notin> f ` set xs" by auto
    then have "filter (\<lambda>x. f x = a) xs = []"
      by (auto simp: filter_empty_conv)
    with True show ?thesis by simp
  next
    case False
    with Cons show ?thesis by auto
  qed
qed

lemma failed_names_subset:
  "failed_names latest_data \<subseteq> set (map result_doc.author_name (results latest_data))"
  by (auto simp: failed_names_def)

lemma merged_with_names:
  assumes "set (map result_doc.author_name ps) \<subseteq> set (map result_doc.author_name (results latest_data))"
  shows "set (map result_doc.author_name (results (merged_with latest_data ps))) =
     set (map result_doc.author_name (results latest_data))"
  using assms by (auto simp: merged_with_def)

lemma merged_with_distinct:
  assumes "distinct (map result_doc.author_name (results latest_data))"
    and "distinct (map result_doc.author_name ps)"
  shows "distinct (map result_doc.author_name (results (merged_with latest_data ps)))"
  using assms by (auto simp: merged_with_def distinct_map_filter)

text \<open>
  Claim C2. A failed entry of the newest snapshot whose author has no successful result
  in any older snapshot that loads stays in the merged view as it is, with its error
  message, and the view holds no other entry for that author than the newest snapshot
  does. An older file that is missing or unreadable gives no backfill and changes
  nothing else: the view is the one of the store without that file, so the files after
  it are still scanned.
\<close>

theorem merge_without_backfill:
  fixes latest_data :: "'dt snapshot" and older pre post :: "'dt store"
  assumes "r0 \<in> set (results latest_data)" and "\<not> result_doc.success r0"
    and "\<forall>(f, loaded) \<in> set older. \<forall>old_data. loaded = Some old_data \<longrightarrow>
          (\<forall>r \<in> set (results old_data).
              result_doc.author_name r = result_doc.author_name r0 \<longrightarrow> \<not> result_doc.success r)"
  shows "(\<exists>merged.
        fst (load_latest_data ((latest_file, Some latest_data) # older)) = Some merged \<and>
        filter (\<lambda>r. result_doc.author_name r = result_doc.author_name r0) (results merged) =
          filter (\<lambda>r. result_doc.author_name r = result_doc.author_name r0) (results latest_data) \<and>
        r0 \<in> set (results merged)) \<and>
      fst (load_latest_data ((latest_file, Some latest_data) # pre @ (f', None) # post)) =
        fst (load_latest_data ((latest_file, Some latest_data) # pre @ post))"
proof -
  let ?a = "result_doc.author_name r0"
  let ?merged = "merged_with latest_data (scan_picks older (failed_names latest_data))"
  have "history ?a older = None"
    using assms(3) by (simp only: history_None_iff)
  then have "?a \<notin> resolved latest_data older"
    by (simp add: resolved_def)
  then have keep: "filter (\<lambda>r. result_doc.author_name r = ?a) (results ?merged) =
      filter (\<lambda>r. result_doc.author_name r = ?a) (results latest_data)"
    by (simp only: view_filter if_False)
  have "r0 \<in> set (filter (\<lambda>r. result_doc.author_name r = ?a) (results latest_data))"
    using assms(1) by simp
  then have "r0 \<in> set (filter (\<lambda>r. result_doc.author_name r = ?a) (results ?merged))"
    by (simp only: keep)
  then have mem: "r0 \<in> set (results ?merged)" by simp
  have unreadable:
    "fst (load_latest_data ((latest_file, Some latest_data) # pre @ (f', None) # post)) =
        fst (load_latest_data ((latest_file, Some latest_data) # pre @ post))"
    by (simp only: load_latest_data_eq fst_conv scan_picks_unreadable)
  have "fst (load_latest_data ((latest_file, Some latest_data) # older)) = Some ?merged"
    by (simp add: load_latest_data_eq)
  with keep mem unreadable show ?thesis by blast
qed

text \<open>
  A failed \<open>Y\<close> in the newest snapshot, then an unreadable file, then a snapshot without
  \<open>Y\<close>: the entry of \<open>Y\<close> stays, with its message.
\<close>

theorem merge_without_backfill_scenario:
  "scenario_failed_result \<in> set [scenario_failed_result] \<and>
   \<not> result_doc.success scenario_failed_result \<and>
   (\<exists>merged.
      fst (load_latest_data
             [(''collection_20251111_080000.json'',
               Some (scenario_unresolved\<lparr>results := [scenario_failed_result]\<rparr>)),
              (''collection_20251110_080000.json'', None),
              (''collection_20251109_080000.json'', Some scenario_unresolved)]) = Some merged \<and>
      filter (\<lambda>r. result_doc.author_name r = ''Y'') (results merged) = [scenario_failed_result] \<and>
      error_message scenario_failed_result = Some ''timeout'')"
proof -
  let ?latest = "scenario_unresolved\<lparr>results := [scenario_failed_result]\<rparr>"
  let ?older = "[(''collection_20251110_080000.json'', None),
                 (''collection_20251109_080000.json'', Some scenario_unresolved)]"
  have a1: "scenario_failed_result \<in> set (results ?latest)"
    by simp
  have a2: "\<not> result_doc.success scenario_failed_result"
    by (simp add: scenario_failed_result_def)
  have a3: "\<forall>(f, loaded) \<in> set ?older. \<forall>old_data. loaded = Some old_data \<longrightarrow>
          (\<forall>r \<in> set (results old_data).
              result_doc.author_name r = result_doc.author_name scenario_failed_result \<longrightarrow>
              \<not> result_doc.success r)"
    by (simp add: scenario_unresolved_def scenario_failed_result_def)
  have n: "result_doc.author_name scenario_failed_result = ''Y''"
    by (simp add: scenario_failed_result_def)
  from merge_without_backfill [OF a1 a2 a3, of "''collection_20251111_080000.json''"]
  obtain merged where
    m: "fst (load_latest_data ((''collection_20251111_080000.json'', Some ?latest) # ?older)) = Some merged"
      "filter (\<lambda>r. result_doc.author_name r = result_doc.author_name scenario_failed_result)
         (results merged) =
       filter (\<lambda>r. result_doc.author_name r = result_doc.author_name scenario_failed_result)
         (results ?latest)"
    by blast
  from m(2) have "filter (\<lambda>r. result_doc.author_name r = ''Y'') (results merged) =
      [scenario_failed_result]"
    by (simp add: n)
  moreover have "error_message scenario_failed_result = Some ''timeout''"
    by (simp add: scenario_failed_result_def)
  ultimately show ?thesis using a2 m(1) by simp
qed

text \<open>
  A document that \<open>save_results\<close> writes satisfies the equation between the three
  counters, and lists the authors of the results of the run, in their order.
\<close>

lemma count_filter_compl:
  "sum_list (map (\<lambda>r. 1) (filter P rs)) + sum_list (map (\<lambda>r. 1) (filter (\<lambda>r. \<not> P r) rs))
     = int (length rs)"
  by (induction rs) auto

lemma save_results_counters:
  "successful_authors (save_results isoformat now rs) + failed_authors (save_results isoformat now rs)
     = total_authors (save_results isoformat now rs)"
  by (simp add: save_results_def count_filter_compl)

lemma save_results_names:
  "map result_doc.author_name (results (save_results isoformat now rs)) =
     map CollectionResult.author_name rs"
  by (simp add: save_results_def result_to_doc_def)

text \<open>
  Claim C10 as stated fails for a store whose newest snapshot lists an author twice:
  nothing in the merge removes a duplicate of a successful author, and the view has two
  results for that author.
\<close>

theorem merge_duplicate_author_counterexample:
  "fst (load_latest_data [(''collection_20251111_080000.json'', Some scenario_duplicate)])
     = Some scenario_duplicate \<and>
   map result_doc.author_name (results scenario_duplicate) = [''X'', ''X'']"
  by (simp add: load_latest_data_def failed_names_def scenario_duplicate_def Let_def)

text \<open>
  Claim C10, amended. A store with no file, or whose newest file does not load, has no
  view. Otherwise the view has the authors of the newest snapshot, its \<open>total_authors\<close>
  and the same sum of \<open>successful_authors\<close> and \<open>failed_authors\<close>, so that the
  equation between the three counters carries over from the newest snapshot to the
  view. When the newest snapshot lists every author once, so does the view: it has
  exactly one result per author of the newest snapshot.
\<close>

theorem merge_counter_invariant:
  fixes latest_data :: "'dt snapshot" and older :: "'dt store"
  shows "fst (load_latest_data ([] :: 'dt store)) = None \<and>
     fst (load_latest_data ((latest_file, None) # older)) = None \<and>
     (\<exists>merged.
        fst (load_latest_data ((latest_file, Some latest_data) # older)) = Some merged \<and>
        total_authors merged = total_authors latest_data \<and>
        set (map result_doc.author_name (results merged)) =
          set (map result_doc.author_name (results latest_data)) \<and>
        successful_authors merged + failed_authors merged =
          successful_authors latest_data + failed_authors latest_data \<and>
        (successful_authors latest_data + failed_authors latest_data = total_authors latest_data \<longrightarrow>
           successful_authors merged + failed_authors merged = total_authors merged) \<and>
        (distinct (map result_doc.author_name (results latest_data)) \<longrightarrow>
           distinct (map result_doc.author_name (results merged)) \<and>
           length (results merged) = length (results latest_data) \<and>
           (\<forall>a \<in> set (map result_doc.author_name (results latest_data)).
              length (filter (\<lambda>r. result_doc.author_name r = a) (results merged)) = 1)))"
proof -
  let ?ps = "scan_picks older (failed_names latest_data)"
  let ?merged = "merged_with latest_data ?ps"
  have view: "fst (load_latest_data ((latest_file, Some latest_data) # older)) = Some ?merged"
    by (simp add: load_latest_data_eq)
  have sub: "set (map result_doc.author_name ?ps) \<subseteq>
      set (map result_doc.author_name (results latest_data))"
    using scan_picks_names_subset [of older "failed_names latest_data"]
      failed_names_subset [of latest_data] by blast
  have names: "set (map result_doc.author_name (results ?merged)) =
      set (map result_doc.author_name (results latest_data))"
    by (rule merged_with_names [OF sub])
  have total: "total_authors ?merged = total_authors latest_data"
    by (simp add: merged_with_def)
  have sum: "successful_authors ?merged + failed_authors ?merged =
      successful_authors latest_data + failed_authors latest_data"
    by (simp add: merged_with_def)
  have one: "distinct (map result_doc.author_name (results latest_data)) \<longrightarrow>
           distinct (map result_doc.author_name (results ?merged)) \<and>
           length (results ?merged) = length (results latest_data) \<and>
           (\<forall>a \<in> set (map result_doc.author_name (results latest_data)).
              length (filter (\<lambda>r. result_doc.author_name r = a) (results ?merged)) = 1)"
  proof
    assume d: "distinct (map result_doc.author_name (results latest_data))"
    have d': "distinct (map result_doc.author_name (results ?merged))"
      by (rule merged_with_distinct [OF d scan_picks_names_distinct])
    have "card (set (map result_doc.author_name (results ?merged))) =
        card (set (map result_doc.author_name (results latest_data)))"
      by (simp only: names)
    then have len: "length (results ?merged) = length (results latest_data)"
      using distinct_card [OF d] distinct_card [OF d'] by simp
    have "\<forall>a \<in> set (map result_doc.author_name (results latest_data)).
        length (filter (\<lambda>r. result_doc.author_name r = a) (results ?merged)) = 1"
    proof
      fix a
      assume "a \<in> set (map result_doc.author_name (results latest_data))"
      then have "a \<in> set (map result_doc.author_name (results ?merged))"
        by (simp only: names)
      then show "length (filter (\<lambda>r. result_doc.author_name r = a) (results ?merged)) = 1"
        by (rule distinct_map_filter_length [OF d'])
    qed
    with d' len show "distinct (map result_doc.author_name (results ?merged)) \<and>
           length (results ?merged) = length (results latest_data) \<and>
           (\<forall>a \<in> set (map result_doc.author_name (results latest_data)).
              length (filter (\<lambda>r. result_doc.author_name r = a) (results ?merged)) = 1)"
      by blast
  qed
  have none: "fst (load_latest_data ([] :: 'dt store)) = None"
    "fst (load_latest_data ((latest_file, None) # older)) = None"
    by (simp_all add: load_latest_data_def)
  have inv: "successful_authors latest_data + failed_authors latest_data = total_authors latest_data \<longrightarrow>
      successful_authors ?merged + failed_authors ?merged = total_authors ?merged"
    using total sum by simp
  show ?thesis
    by (intro conjI exI [of _ ?merged]; (fact none view names total sum inv one))
qed

text \<open>The scenario of claim C1 again: two authors, one result each in the view.\<close>

theorem merge_counter_invariant_scenario:
  "successful_authors scenario_latest + failed_authors scenario_latest = total_authors scenario_latest \<and>
   distinct (map result_doc.author_name (results scenario_latest)) \<and>
   (\<exists>merged.
      fst (load_latest_data
             [(''collection_20251111_080000.json'', Some scenario_latest),
              (''collection_20251110_080000.json'', Some scenario_old)]) = Some merged \<and>
      total_authors merged = 2 \<and>
      successful_authors merged + failed_authors merged = total_authors merged \<and>
      length (results merged) = 2 \<and>
      length (filter (\<lambda>r. result_doc.author_name r = ''X'') (results merged)) = 1 \<and>
      length (filter (\<lambda>r. result_doc.author_name r = ''Y'') (results merged)) = 1)"
proof -
  have a1: "successful_authors scenario_latest + failed_authors scenario_latest =
      total_authors scenario_latest"
    by (simp add: scenario_latest_def)
  have a2: "distinct (map result_doc.author_name (results scenario_latest))"
    by (simp add: scenario_latest_def)
  have names: "set (map result_doc.author_name (results scenario_latest)) = {''X'', ''Y''}"
    by (simp add: scenario_latest_def)
  have t: "total_authors scenario_latest = 2" "length (results scenario_latest) = 2"
    by (simp_all add: scenario_latest_def)
  from merge_counter_invariant [of "''collection_20251111_080000.json''"
      "[(''collection_20251110_080000.json'', Some scenario_old)]" scenario_latest]
  obtain merged where
    m: "fst (load_latest_data
             [(''collection_20251111_080000.json'', Some scenario_latest),
              (''collection_20251110_080000.json'', Some scenario_old)]) = Some merged"
      "total_authors merged = total_authors scenario_latest"
      "successful_authors merged + failed_authors merged = total_authors merged"
      "length (results merged) = length (results scenario_latest)"
      "\<forall>a \<in> set (map result_doc.author_name (results scenario_latest)).
              length (filter (\<lambda>r. result_doc.author_name r = a) (results merged)) = 1"
    using a1 a2 by blast
  have "''X'' \<in> set (map result_doc.author_name (results scenario_latest))"
    "''Y'' \<in> set (map result_doc.author_name (results scenario_latest))"
    by (simp_all only: names) simp_all
  with m(5) have
    "length (filter (\<lambda>r. result_doc.author_name r = ''X'') (results merged)) = 1"
    "length (filter (\<lambda>r. result_doc.author_name r = ''Y'') (results merged)) = 1"
    by blast+
  with a1 a2 m(1-4) t show ?thesis by auto
qed

section \<open>Properties of the collectors\<close>

lemma parse_entries_eq:
  "parse_entries parse_entry es its = its @ mapped_items parse_entry es"
proof (induction es arbitrary: its)
  case Nil
  show ?case by (simp add: mapped_items_def map_filter_simps)
next
  case (Cons e es)
  show ?case
  proof (cases "parse_entry e")
    case (Inl ex)
    then show ?thesis using Cons.IH [of its] by (simp add: mapped_items_def map_filter_simps)
  next
    case (Inr v)
    then show ?thesis
      using Cons.IH [of its] Cons.IH [of "its @ [the v]"]
      by (cases v) (simp_all add: mapped_items_def map_filter_simps)
  qed
qed

lemma length_mapped_items: "length (mapped_items parse_entry es) \<le> length es"
  by (simp add: mapped_items_def map_filter_def)

lemma length_slice_to: "0 \<le> n \<Longrightarrow> length (slice_to n xs) \<le> nat n"
  by (simp add: slice_to_def)

lemma length_mapped_slice:
  "0 \<le> n \<Longrightarrow> length (mapped_items parse_entry (slice_to n es)) \<le> nat n"
  using length_mapped_items [of parse_entry "slice_to n es"] length_slice_to [of n es]
  by linarith

lemma create_error_result_eq:
  "create_error_result now a msg =
     Inr \<lparr>CollectionResult.author_name = name a, author_url = Author.url a,
          category = Author.category a, success = False, items = [],
          error_message = Some msg, collected_at = now\<rparr>"
  by (simp add: create_error_result_def CollectionResult_init_def)

lemma create_success_result_eq:
  "create_success_result now a its =
     Inr \<lparr>CollectionResult.author_name = name a, author_url = Author.url a,
          category = Author.category a, success = True, items = its,
          error_message = None, collected_at = now\<rparr>"
  by (simp add: create_success_result_def CollectionResult_init_def)

lemma YouTube_collect_cases:
  "YouTube_collect fetch now self max_items =
     (case YouTubeCollector.rss_url self of
        None \<Rightarrow> create_error_result now (YouTubeCollector.author self) msg_no_channel_id
      | Some u \<Rightarrow>
          (case fetch u of
             Inl ex \<Rightarrow>
               create_error_result now (YouTubeCollector.author self)
                 (msg_collect_failed (str_exn ex))
           | Inr entries \<Rightarrow>
               if entries = [] then
                 create_error_result now (YouTubeCollector.author self) msg_no_videos
               else
                 create_success_result now (YouTubeCollector.author self)
                   (mapped_items (YouTube_parse_entry now self) (slice_to max_items entries))))"
  by (simp add: YouTube_collect_def parse_entries_eq create_error_result_eq
      create_success_result_eq split: option.split sum.split)

lemma News_collect_cases:
  "News_collect fetch html_text now self max_items =
     (case fetch (feed_url self) of
        Inl ex \<Rightarrow>
          create_error_result now (NewsCollector.author self) (msg_collect_failed (str_exn ex))
      | Inr entries \<Rightarrow>
          if entries = [] then
            create_error_result now (NewsCollector.author self) msg_news_no_entries
          else if mapped_items (News_parse_entry html_text now self)
                    (slice_to max_items entries) = [] then
            create_error_result now (NewsCollector.author self) msg_news_no_valid_items
          else
            create_success_result now (NewsCollector.author self)
              (mapped_items (News_parse_entry html_text now self) (slice_to max_items entries)))"
  by (simp add: News_collect_def parse_entries_eq create_error_result_eq
      create_success_result_eq Let_def split: sum.split)

lemma Podcast_collect_cases:
  "Podcast_collect fetch html_text now self max_items =
     (case fetch (PodcastCollector.rss_url self) of
        Inl ex \<Rightarrow>
          create_error_result now (PodcastCollector.author self) (msg_collect_failed (str_exn ex))
      | Inr entries \<Rightarrow>
          if entries = [] then
            create_error_result now (PodcastCollector.author self) msg_podcast_no_entries
          else if mapped_items (Podcast_parse_entry html_text now self)
                    (slice_to max_items entries) = [] then
            create_error_result now (PodcastCollector.author self) msg_podcast_no_valid_items
          else
            create_success_result now (PodcastCollector.author self)
              (mapped_items (Podcast_parse_entry html_text now self) (slice_to max_items entries)))"
  by (simp add: Podcast_collect_def parse_entries_eq create_error_result_eq
      create_success_result_eq Let_def split: sum.split)

lemma slice_to_take: "0 \<le> n \<Longrightarrow> slice_to n xs = take (nat n) xs"
  by (simp add: slice_to_def)

lemma length_mapped_take: "length (mapped_items parse_entry (take n es)) \<le> n"
  using length_mapped_items [of parse_entry "take n es"] by simp

lemma YouTube_collect_bounded:
  assumes "1 \<le> max_items"
  shows "\<exists>r. YouTube_collect fetch now self max_items = Inr r \<and>
      length (CollectionResult.items r) \<le> nat max_items \<and>
      (\<forall>u ex. YouTubeCollector.rss_url self = Some u \<and> fetch u = Inl ex \<longrightarrow>
         \<not> CollectionResult.success r \<and> CollectionResult.items r = [] \<and>
         CollectionResult.error_message r = Some (msg_collect_failed (str_exn ex))) \<and>
      (\<forall>u entries. YouTubeCollector.rss_url self = Some u \<and> fetch u = Inr entries \<and> entries \<noteq> [] \<longrightarrow>
         CollectionResult.success r \<and>
         CollectionResult.items r =
           mapped_items (YouTube_parse_entry now self) (take (nat max_items) entries))"
proof (cases "YouTubeCollector.rss_url self")
  case None
  then show ?thesis
    by (simp add: YouTube_collect_cases create_error_result_eq)
next
  case (Some u)
  show ?thesis
  proof (cases "fetch u")
    case (Inl ex)
    with Some show ?thesis
      by (simp add: YouTube_collect_cases create_error_result_eq)
  next
    case (Inr entries)
    with Some assms show ?thesis
      by (simp add: YouTube_collect_cases create_error_result_eq create_success_result_eq
          slice_to_take length_mapped_take)
  qed
qed

lemma News_collect_bounded:
  assumes "1 \<le> max_items"
  shows "\<exists>r. News_collect fetch html_text now self max_items = Inr r \<and>
      length (CollectionResult.items r) \<le> nat max_items \<and>
      (\<forall>ex. fetch (feed_url self) = Inl ex \<longrightarrow>
         \<not> CollectionResult.success r \<and> CollectionResult.items r = [] \<and>
         CollectionResult.error_message r = Some (msg_collect_failed (str_exn ex))) \<and>
      (\<forall>entries. fetch (feed_url self) = Inr entries \<longrightarrow>
         CollectionResult.items r =
           mapped_items (News_parse_entry html_text now self) (take (nat max_items) entries) \<and>
         (CollectionResult.success r \<longleftrightarrow>
            mapped_items (News_parse_entry html_text now self) (take (nat max_items) entries) \<noteq> []))"
proof (cases "fetch (feed_url self)")
  case (Inl ex)
  then show ?thesis
    by (simp add: News_collect_cases create_error_result_eq)
next
  case (Inr entries)
  have "mapped_items (News_parse_entry html_text now self) [] = []"
    by (simp add: mapped_items_def)
  with Inr assms show ?thesis
    by (simp add: News_collect_cases create_error_result_eq create_success_result_eq
        slice_to_take length_mapped_take)
qed

lemma Podcast_collect_bounded:
  assumes "1 \<le> max_items"
  shows "\<exists>r. Podcast_collect fetch html_text now self max_items = Inr r \<and>
      length (CollectionResult.items r) \<le> nat max_items \<and>
      (\<forall>ex. fetch (PodcastCollector.rss_url self) = Inl ex \<longrightarrow>
         \<not> CollectionResult.success r \<and> CollectionResult.items r = [] \<and>
         CollectionResult.error_message r = Some (msg_collect_failed (str_exn ex))) \<and>
      (\<forall>entries. fetch (PodcastCollector.rss_url self) = Inr entries \<longrightarrow>
         CollectionResult.items r =
           mapped_items (Podcast_parse_entry html_text now self) (take (nat max_items) entries) \<and>
         (CollectionResult.success r \<longleftrightarrow>
            mapped_items (Podcast_parse_entry html_text now self) (take (nat max_items) entries) \<noteq> []))"
proof (cases "fetch (PodcastCollector.rss_url self)")
  case (Inl ex)
  then show ?thesis
    by (simp add: Podcast_collect_cases create_error_result_eq)
next
  case (Inr entries)
  have "mapped_items (Podcast_parse_entry html_text now self) [] = []"
    by (simp add: mapped_items_def)
  with Inr assms show ?thesis
    by (simp add: Podcast_collect_cases create_error_result_eq create_success_result_eq
        slice_to_take length_mapped_take)
qed

text \<open>
  Claim C8. For each of the three collectors and every \<open>max_items\<close> of at least 1,
  \<open>collect\<close> returns a result (it does not raise) with at most \<open>max_items\<close> items. When
  the fetch of the feed raises, the result is a failed one whose message holds the
  message of the exception. Otherwise the items are those of the entries among the
  first \<open>max_items\<close> that map, in their order: an entry whose mapping raises or returns
  \<open>None\<close> is left out, and the result is successful as soon as one entry maps (for the
  video collector, as soon as the feed has an entry).
\<close>

theorem collect_never_raises:
  fixes fetch :: "string \<Rightarrow> exn + 'dt entry list"
  assumes "1 \<le> max_items"
  shows
    "(\<exists>r. YouTube_collect fetch now video max_items = Inr r \<and>
        length (CollectionResult.items r) \<le> nat max_items \<and>
        (\<forall>u ex. YouTubeCollector.rss_url video = Some u \<and> fetch u = Inl ex \<longrightarrow>
           \<not> CollectionResult.success r \<and> CollectionResult.items r = [] \<and>
           CollectionResult.error_message r = Some (msg_collect_failed (str_exn ex))) \<and>
        (\<forall>u entries. YouTubeCollector.rss_url video = Some u \<and> fetch u = Inr entries \<and>
             entries \<noteq> [] \<longrightarrow>
           CollectionResult.success r \<and>
           CollectionResult.items r =
             mapped_items (YouTube_parse_entry now video) (take (nat max_items) entries))) \<and>
     (\<exists>r. News_collect fetch html_text now news max_items = Inr r \<and>
        length (CollectionResult.items r) \<le> nat max_items \<and>
        (\<forall>ex. fetch (feed_url news) = Inl ex \<longrightarrow>
           \<not> CollectionResult.success r \<and> CollectionResult.items r = [] \<and>
           CollectionResult.error_message r = Some (msg_collect_failed (str_exn ex))) \<and>
        (\<forall>entries. fetch (feed_url news) = Inr entries \<longrightarrow>
           CollectionResult.items r =
             mapped_items (News_parse_entry html_text now news) (take (nat max_items) entries) \<and>
           (CollectionResult.success r \<longleftrightarrow>
              mapped_items (News_parse_entry html_text now news) (take (nat max_items) entries)
                \<noteq> []))) \<and>
     (\<exists>r. Podcast_collect fetch html_text now podcast max_items = Inr r \<and>
        length (CollectionResult.items r) \<le> nat max_items \<and>
        (\<forall>ex. fetch (PodcastCollector.rss_url podcast) = Inl ex \<longrightarrow>
           \<not> CollectionResult.success r \<and> CollectionResult.items r = [] \<and>
           CollectionResult.error_message r = Some (msg_collect_failed (str_exn ex))) \<and>
        (\<forall>entries. fetch (PodcastCollector.rss_url podcast) = Inr entries \<longrightarrow>
           CollectionResult.items r =
             mapped_items (Podcast_parse_entry html_text now podcast)
               (take (nat max_items) entries) \<and>
           (CollectionResult.success r \<longleftrightarrow>
              mapped_items (Podcast_parse_entry html_text now podcast)
                (take (nat max_items) entries) \<noteq> [])))"
  using YouTube_collect_bounded [OF assms, of fetch now video]
    News_collect_bounded [OF assms, of fetch html_text now news]
    Podcast_collect_bounded [OF assms, of fetch html_text now podcast]
  by (intro conjI)

text \<open>
  The example of the specification: a feed of 8 entries that map and 2 that do not (the
  second has no title, the fourth a link that the item constructor refuses), and
  \<open>max_items = 5\<close>. The news collector returns the three items of the first five entries.
\<close>

theorem collect_never_raises_example:
  "(1 :: int) \<le> 5 \<and>
   (\<exists>r. News_collect (\<lambda>u. Inr example_feed) (\<lambda>s. s) ''2025-11-10T12:00:00''
           example_news 5 = Inr r \<and>
        CollectionResult.success r \<and>
        length (CollectionResult.items r) \<le> 5 \<and>
        map ContentItem_rec.title (CollectionResult.items r) = [''a'', ''b'', ''c''])"
proof -
  let ?news = example_news
  let ?pe = "News_parse_entry (\<lambda>s. s) ''2025-11-10T12:00:00'' ?news"
  have ok: "\<exists>item. ?pe (example_entry [c]) = Inr (Some item) \<and> ContentItem_rec.title item = [c]"
    if "\<not> isspace c" for c
    using that
    by (simp add: News_parse_entry_def example_entry_def get_or_empty_def strip_def Let_def
        post_init_def startswith_http_def isspace_def example_author_def with_category_def
        example_news_def)
  have no_title: "?pe ((example_entry ''-'')\<lparr>entry.title := None\<rparr>) = Inr None"
    by (simp add: News_parse_entry_def example_entry_def get_or_empty_def strip_def Let_def)
  have bad_link: "\<exists>e. ?pe ((example_entry ''-'')\<lparr>link := Some ''ftp://blog.example/post''\<rparr>) = Inl e"
    by (simp add: News_parse_entry_def example_entry_def get_or_empty_def strip_def Let_def
        post_init_def startswith_http_def isspace_def example_author_def example_news_def)
  have sp: "\<not> isspace CHR ''a''" "\<not> isspace CHR ''b''" "\<not> isspace CHR ''c''"
    by (simp_all add: isspace_def)
  from ok [OF sp(1)] ok [OF sp(2)] ok [OF sp(3)] bad_link
  obtain ia ib ic e where
    m: "?pe (example_entry ''a'') = Inr (Some ia)" "ContentItem_rec.title ia = ''a''"
       "?pe (example_entry ''b'') = Inr (Some ib)" "ContentItem_rec.title ib = ''b''"
       "?pe (example_entry ''c'') = Inr (Some ic)" "ContentItem_rec.title ic = ''c''"
       "?pe ((example_entry ''-'')\<lparr>link := Some ''ftp://blog.example/post''\<rparr>) = Inl e"
    by blast
  have mapped: "mapped_items ?pe (take (nat 5) example_feed) = [ia, ib, ic]"
    by (simp add: example_feed_def mapped_items_def m no_title)
  have one: "(1 :: int) \<le> 5" by simp
  from collect_never_raises [OF one, of "\<lambda>u. Inr example_feed" "''2025-11-10T12:00:00''"
      example_video "\<lambda>s. s" ?news example_podcast]
  obtain r where
    r: "News_collect (\<lambda>u. Inr example_feed) (\<lambda>s. s) ''2025-11-10T12:00:00'' ?news 5 = Inr r"
      "length (CollectionResult.items r) \<le> nat 5"
      "CollectionResult.items r = mapped_items ?pe (take (nat 5) example_feed)"
      "CollectionResult.success r \<longleftrightarrow> mapped_items ?pe (take (nat 5) example_feed) \<noteq> []"
    by auto
  from r mapped m(2,4,6) show ?thesis by simp
qed

section \<open>Properties of the run\<close>

subsection \<open>The registry\<close>

text \<open>
  The registry is keyed by the name of the author: its names are distinct, it has at
  most one collector per enabled author, and when the enabled authors have distinct
  names it lists, in the configured order, the authors that \<open>factory\<close> has
  a collector for.
\<close>

lemma update_fresh:
  "k \<notin> fst ` set al \<Longrightarrow> AList.update k v al = al @ [(k, v)]"
  by (induction al) auto

lemma initialize_collectors_names_distinct:
  "distinct (map fst collectors) \<Longrightarrow>
   distinct (map fst (initialize_collectors factory enabled_authors collectors))"
  by (induction enabled_authors arbitrary: collectors)
    (auto simp: distinct_update split: option.splits)

lemma initialize_collectors_length:
  "length (initialize_collectors factory enabled_authors collectors)
     \<le> length collectors + length enabled_authors"
proof (induction enabled_authors arbitrary: collectors)
  case Nil
  show ?case by simp
next
  case (Cons a enabled_authors)
  have upd: "length (AList.update (name a) c collectors) \<le> Suc (length collectors)" for c
    by (induction collectors) auto
  show ?case
  proof (cases "factory a")
    case None
    then show ?thesis using Cons.IH [of collectors] by simp
  next
    case (Some c)
    then show ?thesis
      using Cons.IH [of "AList.update (name a) c collectors"] upd [of c] by simp
  qed
qed

lemma initialize_collectors_distinct:
  assumes "distinct (map name enabled_authors)"
    and "name ` set enabled_authors \<inter> fst ` set collectors = {}"
  shows "initialize_collectors factory enabled_authors collectors =
     collectors @
     List.map_filter (\<lambda>a. map_option (Pair (name a)) (factory a)) enabled_authors"
  using assms
proof (induction enabled_authors arbitrary: collectors)
  case Nil
  show ?case by (simp add: List.map_filter_simps)
next
  case (Cons a enabled_authors)
  show ?case
  proof (cases "factory a")
    case None
    with Cons show ?thesis by (simp add: List.map_filter_simps)
  next
    case (Some c)
    have fresh: "name a \<notin> fst ` set collectors" using Cons.prems(2) by auto
    have upd: "AList.update (name a) c collectors = collectors @ [(name a, c)]"
      by (rule update_fresh [OF fresh])
    have d: "distinct (map name enabled_authors)" using Cons.prems(1) by simp
    have "name ` set enabled_authors \<inter> fst ` set (collectors @ [(name a, c)]) = {}"
      using Cons.prems by auto
    from Cons.IH [OF d this] Some upd show ?thesis
      by (simp add: List.map_filter_simps)
  qed
qed

lemma collect_loop_eq:
  "collect_loop now max_items collectors (res, calls) =
     Inr (res @ map (outcome now max_items) collectors, calls @ map fst collectors)"
proof (induction collectors arbitrary: res calls)
  case Nil
  show ?case by simp
next
  case (Cons c collectors)
  obtain a_name collector where c: "c = (a_name, collector)" by (cases c)
  show ?case
  proof (cases "collect collector max_items")
    case (Inr result)
    then show ?thesis
      using Cons.IH [of "res @ [result]" "calls @ [a_name]"] c
      by (simp add: outcome_def)
  next
    case (Inl e)
    let ?failed = "\<lparr>CollectionResult.author_name = a_name,
           author_url = Author.url (BaseCollector.author collector),
           category = Author.category (BaseCollector.author collector),
           success = False, items = [], error_message = Some (str_exn e),
           collected_at = now\<rparr>"
    from Inl show ?thesis
      using Cons.IH [of "res @ [?failed]" "calls @ [a_name]"] c
      by (simp add: outcome_def CollectionResult_init_def)
  qed
qed

lemma collect_all_eq:
  "collect_all now settings_max_items collectors max_items_per_author =
     Inr (map (outcome now (case max_items_per_author of None \<Rightarrow> settings_max_items | Some k \<Rightarrow> k))
            collectors,
          map fst collectors)"
  by (simp add: collect_all_def collect_loop_eq)

subsection \<open>The registry of a configuration\<close>

lemma update_entries:
  "set (AList.update k v al) \<subseteq> insert (k, v) (set al)"
  by (induction al) auto

lemma initialize_collectors_entries:
  "(n, c) \<in> set (initialize_collectors factory enabled_authors collectors) \<Longrightarrow>
   (n, c) \<in> set collectors \<or> (\<exists>a \<in> set enabled_authors. n = name a \<and> factory a = Some c)"
proof (induction enabled_authors arbitrary: collectors)
  case Nil
  then show ?case by simp
next
  case (Cons a enabled_authors)
  show ?case
  proof (cases "factory a")
    case None
    with Cons.prems have "(n, c) \<in> set (initialize_collectors factory enabled_authors collectors)"
      by simp
    from Cons.IH [OF this] show ?thesis by auto
  next
    case (Some c')
    with Cons.prems have
      "(n, c) \<in> set (initialize_collectors factory enabled_authors (AList.update (name a) c' collectors))"
      by simp
    from Cons.IH [OF this] update_entries [of "name a" c' collectors] Some
    show ?thesis by auto
  qed
qed

lemma initialize_collectors_names:
  "\<forall>a \<in> set enabled_authors. factory a \<noteq> None \<Longrightarrow>
   fst ` set (initialize_collectors factory enabled_authors collectors) =
     fst ` set collectors \<union> name ` set enabled_authors"
proof (induction enabled_authors arbitrary: collectors)
  case Nil
  show ?case by simp
next
  case (Cons a enabled_authors)
  from Cons.prems obtain c where c: "factory a = Some c" by auto
  have "fst ` set (AList.update (name a) c collectors) = insert (name a) (fst ` set collectors)"
    using dom_update [of "name a" c collectors] by simp
  with Cons.IH [of "AList.update (name a) c collectors"] Cons.prems c
  show ?case by auto
qed

lemma map_filter_all_Some:
  "\<forall>a \<in> set xs. f a \<noteq> None \<Longrightarrow> List.map_filter f xs = map (\<lambda>a. the (f a)) xs"
  by (induction xs) (auto simp: List.map_filter_simps)

lemma registry_distinct_names:
  assumes "\<forall>a \<in> set enabled_authors. factory a \<noteq> None"
    and "distinct (map name enabled_authors)"
  shows "initialize_collectors factory enabled_authors [] =
     map (\<lambda>a. (name a, the (factory a))) enabled_authors"
proof -
  have "\<forall>a \<in> set enabled_authors. map_option (Pair (name a)) (factory a) \<noteq> None"
    using assms(1) by simp
  from map_filter_all_Some [OF this] assms(1)
  have "List.map_filter (\<lambda>a. map_option (Pair (name a)) (factory a)) enabled_authors =
      map (\<lambda>a. (name a, the (factory a))) enabled_authors"
    by (auto simp: option.map_sel)
  with initialize_collectors_distinct [OF assms(2), of "[]" factory]
  show ?thesis by simp
qed

lemma registry_names:
  assumes "\<forall>a \<in> set enabled_authors. factory a \<noteq> None"
  shows "distinct (map fst (initialize_collectors factory enabled_authors []))"
    and "set (map fst (initialize_collectors factory enabled_authors [])) =
      name ` set enabled_authors"
    and "length (initialize_collectors factory enabled_authors []) =
      card (name ` set enabled_authors)"
proof -
  show d: "distinct (map fst (initialize_collectors factory enabled_authors []))"
    by (rule initialize_collectors_names_distinct) simp
  show s: "set (map fst (initialize_collectors factory enabled_authors [])) =
      name ` set enabled_authors"
    using initialize_collectors_names [OF assms, of "[]"] by simp
  from distinct_card [OF d] s
  show "length (initialize_collectors factory enabled_authors []) =
      card (name ` set enabled_authors)"
    by simp
qed

subsection \<open>The collectors of \<open>create_collector\<close>\<close>

lemma create_collector_Some:
  "\<exists>c. create_collector channel_rss podcast_rss news_feed fetch html_text now a = Some c \<and>
       BaseCollector.author c = a"
  by (cases "Author.category a") (simp_all add: create_collector_def)

lemma create_collector_collect:
  assumes "create_collector channel_rss podcast_rss news_feed fetch html_text now a = Some c"
  shows "\<exists>r. collect c k = Inr r \<and> CollectionResult.author_name r = name a"
proof (cases "Author.category a")
  case VIDEO
  with assms have "collect c k = YouTube_collect fetch now
      \<lparr>YouTubeCollector.author = a, rss_url = channel_rss a\<rparr> k"
    by (auto simp: create_collector_def)
  then show ?thesis
    by (simp add: YouTube_collect_cases create_error_result_eq create_success_result_eq
        split: option.split sum.split)
next
  case PODCAST
  with assms have "collect c k = Podcast_collect fetch html_text now
      \<lparr>PodcastCollector.author = a, rss_url = podcast_rss a\<rparr> k"
    by (auto simp: create_collector_def)
  then show ?thesis
    by (simp add: Podcast_collect_cases create_error_result_eq create_success_result_eq
        split: sum.split)
next
  case NEWS
  with assms have "collect c k = News_collect fetch html_text now
      \<lparr>NewsCollector.author = a, feed_url = news_feed a\<rparr> k"
    by (auto simp: create_collector_def)
  then show ?thesis
    by (simp add: News_collect_cases create_error_result_eq create_success_result_eq
        split: sum.split)
qed

subsection \<open>The run over a configuration\<close>

text \<open>
  Claim C6 as stated fails for a configuration in which two enabled authors have the
  same name: the registry is keyed by the name, the collector of the second author
  takes the place of the one of the first, and the run over two enabled authors
  returns one result, the one of the second author.
\<close>

theorem collect_all_same_name_counterexample:
  "length (filter enabled same_name_authors) = 2 \<and>
   map fst (initialize_collectors example_factory (get_enabled_authors same_name_authors) [])
     = [''A''] \<and>
   collect_all ''2025-11-10T12:00:00'' 10
       (initialize_collectors example_factory (get_enabled_authors same_name_authors) []) None =
     Inr ([\<lparr>CollectionResult.author_name = ''A'', author_url = ''https://a2.example/rss'',
            category = PODCAST, success = False, items = [],
            error_message = Some msg_podcast_no_entries,
            collected_at = ''2025-11-10T12:00:00''\<rparr>],
          [''A''])"
  by (simp add: collect_all_def get_enabled_authors_def
      same_name_authors_def example_factory_def create_collector_def Podcast_collect_cases
      create_error_result_eq empty_feed_def)

text \<open>
  Claim C6, amended. \<open>collect_all\<close> over a registry of \<open>N\<close> collectors returns (it does
  not raise) exactly \<open>N\<close> results, in the order of the registry, and calls every
  collector once, in that order. The result at a position is the result of the
  collector at that position, or, when that collector raises, a failed result for its
  author that holds the message of the exception; so it is the same for two registries
  that agree at that position, whatever the other collectors do. When the collectors
  answer for their own author, the authors of the results are those of the registry, in
  order.

  The registry of a configuration is built by \<open>_initialize_collectors\<close> from the
  enabled authors. When the \<open>N\<close> enabled authors (the authors of the configuration
  whose flag \<open>enabled\<close> is set) have pairwise distinct names and each has a collector,
  the run returns exactly \<open>N\<close> results in the configured order of the enabled authors,
  the result at a position being the outcome of the collector of the author at that
  position. Whatever the names, the run returns one result per distinct name of an
  enabled author. With the collectors of \<open>create_collector\<close>, every author has a
  collector, and for enabled authors of distinct names the authors of the results are
  the enabled authors in their configured order.
\<close>

theorem collect_all_isolation:
  fixes collectors :: "(string \<times> 'dt BaseCollector) list"
    and fetch :: "string \<Rightarrow> exn + 'dt entry list"
    and authors :: "Author list"
  defines "m \<equiv> \<lambda>max_items_per_author settings_max_items.
      (case max_items_per_author of None \<Rightarrow> settings_max_items | Some (k :: int) \<Rightarrow> k)"
    and "enabled_authors \<equiv> filter enabled authors"
    and "registry \<equiv> \<lambda>factory :: Author \<Rightarrow> 'dt BaseCollector option.
      initialize_collectors factory (get_enabled_authors authors) []"
  shows "(\<exists>res calls.
      collect_all now settings_max_items collectors max_items_per_author = Inr (res, calls) \<and>
      length res = length collectors \<and>
      calls = map fst collectors \<and>
      (\<forall>i < length collectors.
         (\<forall>r. collect (snd (collectors ! i)) (m max_items_per_author settings_max_items) = Inr r \<longrightarrow>
              res ! i = r) \<and>
         (\<forall>e. collect (snd (collectors ! i)) (m max_items_per_author settings_max_items) = Inl e \<longrightarrow>
              res ! i =
                \<lparr>CollectionResult.author_name = fst (collectors ! i),
                 author_url = Author.url (BaseCollector.author (snd (collectors ! i))),
                 category = Author.category (BaseCollector.author (snd (collectors ! i))),
                 success = False, items = [], error_message = Some (str_exn e),
                 collected_at = now\<rparr>) \<and>
         (\<forall>others results' calls'.
            length others = length collectors \<and> others ! i = collectors ! i \<and>
            collect_all now settings_max_items others max_items_per_author = Inr (results', calls') \<longrightarrow>
            results' ! i = res ! i)) \<and>
      ((\<forall>i < length collectors. \<forall>r.
           collect (snd (collectors ! i)) (m max_items_per_author settings_max_items) = Inr r \<longrightarrow>
           CollectionResult.author_name r = fst (collectors ! i)) \<longrightarrow>
       map CollectionResult.author_name res = map fst collectors)) \<and>
    ((\<forall>a \<in> set enabled_authors. factory a \<noteq> None) \<and> distinct (map name enabled_authors) \<longrightarrow>
       (\<exists>res calls.
          collect_all now settings_max_items (registry factory) max_items_per_author
            = Inr (res, calls) \<and>
          length res = length enabled_authors \<and>
          calls = map name enabled_authors \<and>
          (\<forall>i < length enabled_authors. \<forall>c.
             factory (enabled_authors ! i) = Some c \<longrightarrow>
               (\<forall>r. collect c (m max_items_per_author settings_max_items) = Inr r \<longrightarrow> res ! i = r) \<and>
               (\<forall>e. collect c (m max_items_per_author settings_max_items) = Inl e \<longrightarrow>
                  res ! i =
                    \<lparr>CollectionResult.author_name = name (enabled_authors ! i),
                     author_url = Author.url (BaseCollector.author c),
                     category = Author.category (BaseCollector.author c),
                     success = False, items = [], error_message = Some (str_exn e),
                     collected_at = now\<rparr>)))) \<and>
    ((\<forall>a \<in> set enabled_authors. factory a \<noteq> None) \<longrightarrow>
       distinct (map fst (registry factory)) \<and>
       set (map fst (registry factory)) = name ` set enabled_authors \<and>
       (\<exists>res calls.
          collect_all now settings_max_items (registry factory) max_items_per_author
            = Inr (res, calls) \<and>
          length res = card (name ` set enabled_authors))) \<and>
    (\<forall>a. create_collector channel_rss podcast_rss news_feed fetch html_text now a \<noteq> None) \<and>
    (distinct (map name enabled_authors) \<longrightarrow>
       (\<exists>res calls.
          collect_all now settings_max_items
            (registry (create_collector channel_rss podcast_rss news_feed fetch html_text now))
            max_items_per_author = Inr (res, calls) \<and>
          length res = length enabled_authors \<and>
          calls = map name enabled_authors \<and>
          map CollectionResult.author_name res = map name enabled_authors))"
proof -
  let ?m = "m max_items_per_author settings_max_items"
  have reg_def: "registry f = initialize_collectors f enabled_authors []" for f
    by (simp add: registry_def enabled_authors_def get_enabled_authors_def)
  have run: "collect_all now settings_max_items cs max_items_per_author =
      Inr (map (outcome now ?m) cs, map fst cs)" for cs :: "(string \<times> 'dt BaseCollector) list"
    by (simp add: collect_all_eq m_def)
  have registry: "\<exists>res calls.
      collect_all now settings_max_items collectors max_items_per_author = Inr (res, calls) \<and>
      length res = length collectors \<and>
      calls = map fst collectors \<and>
      (\<forall>i < length collectors.
         (\<forall>r. collect (snd (collectors ! i)) ?m = Inr r \<longrightarrow> res ! i = r) \<and>
         (\<forall>e. collect (snd (collectors ! i)) ?m = Inl e \<longrightarrow>
              res ! i =
                \<lparr>CollectionResult.author_name = fst (collectors ! i),
                 author_url = Author.url (BaseCollector.author (snd (collectors ! i))),
                 category = Author.category (BaseCollector.author (snd (collectors ! i))),
                 success = False, items = [], error_message = Some (str_exn e),
                 collected_at = now\<rparr>) \<and>
         (\<forall>others results' calls'.
            length others = length collectors \<and> others ! i = collectors ! i \<and>
            collect_all now settings_max_items others max_items_per_author = Inr (results', calls') \<longrightarrow>
            results' ! i = res ! i)) \<and>
      ((\<forall>i < length collectors. \<forall>r.
           collect (snd (collectors ! i)) ?m = Inr r \<longrightarrow>
           CollectionResult.author_name r = fst (collectors ! i)) \<longrightarrow>
       map CollectionResult.author_name res = map fst collectors)"
  proof -
    let ?res = "map (outcome now ?m) collectors"
    have at: "\<forall>i < length collectors.
         (\<forall>r. collect (snd (collectors ! i)) ?m = Inr r \<longrightarrow> ?res ! i = r) \<and>
         (\<forall>e. collect (snd (collectors ! i)) ?m = Inl e \<longrightarrow>
              ?res ! i =
                \<lparr>CollectionResult.author_name = fst (collectors ! i),
                 author_url = Author.url (BaseCollector.author (snd (collectors ! i))),
                 category = Author.category (BaseCollector.author (snd (collectors ! i))),
                 success = False, items = [], error_message = Some (str_exn e),
                 collected_at = now\<rparr>) \<and>
         (\<forall>others results' calls'.
            length others = length collectors \<and> others ! i = collectors ! i \<and>
            collect_all now settings_max_items others max_items_per_author = Inr (results', calls') \<longrightarrow>
            results' ! i = ?res ! i)"
    proof (intro allI impI conjI)
      fix i r
      assume "i < length collectors" "collect (snd (collectors ! i)) ?m = Inr r"
      then show "?res ! i = r" by (simp add: outcome_def)
    next
      fix i e
      assume "i < length collectors" "collect (snd (collectors ! i)) ?m = Inl e"
      then show "?res ! i =
          \<lparr>CollectionResult.author_name = fst (collectors ! i),
           author_url = Author.url (BaseCollector.author (snd (collectors ! i))),
           category = Author.category (BaseCollector.author (snd (collectors ! i))),
           success = False, items = [], error_message = Some (str_exn e),
           collected_at = now\<rparr>"
        by (simp add: outcome_def)
    next
      fix i others results' calls'
      assume i: "i < length collectors"
        and o: "length others = length collectors \<and> others ! i = collectors ! i \<and>
          collect_all now settings_max_items others max_items_per_author = Inr (results', calls')"
      from o have "results' = map (outcome now ?m) others"
        by (simp add: run)
      with i o show "results' ! i = ?res ! i" by simp
    qed
    have names: "(\<forall>i < length collectors. \<forall>r.
           collect (snd (collectors ! i)) ?m = Inr r \<longrightarrow>
           CollectionResult.author_name r = fst (collectors ! i)) \<longrightarrow>
       map CollectionResult.author_name ?res = map fst collectors"
    proof
      assume own: "\<forall>i < length collectors. \<forall>r.
           collect (snd (collectors ! i)) ?m = Inr r \<longrightarrow>
           CollectionResult.author_name r = fst (collectors ! i)"
      show "map CollectionResult.author_name ?res = map fst collectors"
      proof (rule nth_equalityI)
        show "length (map CollectionResult.author_name ?res) = length (map fst collectors)"
          by simp
      next
        fix i
        assume "i < length (map CollectionResult.author_name ?res)"
        then have i: "i < length collectors" by simp
        show "map CollectionResult.author_name ?res ! i = map fst collectors ! i"
        proof (cases "collect (snd (collectors ! i)) ?m")
          case (Inl e)
          with i show ?thesis by (simp add: outcome_def)
        next
          case (Inr r)
          with i own show ?thesis by (simp add: outcome_def)
        qed
      qed
    qed
    have len: "length ?res = length collectors" by simp
    show ?thesis
      by (intro exI [of _ ?res] exI [of _ "map fst collectors"] conjI)
        (fact run len refl at names)+
  qed
  have config: "(\<forall>a \<in> set enabled_authors. factory a \<noteq> None) \<and>
       distinct (map name enabled_authors) \<longrightarrow>
       (\<exists>res calls.
          collect_all now settings_max_items (registry factory) max_items_per_author
            = Inr (res, calls) \<and>
          length res = length enabled_authors \<and>
          calls = map name enabled_authors \<and>
          (\<forall>i < length enabled_authors. \<forall>c.
             factory (enabled_authors ! i) = Some c \<longrightarrow>
               (\<forall>r. collect c ?m = Inr r \<longrightarrow> res ! i = r) \<and>
               (\<forall>e. collect c ?m = Inl e \<longrightarrow>
                  res ! i =
                    \<lparr>CollectionResult.author_name = name (enabled_authors ! i),
                     author_url = Author.url (BaseCollector.author c),
                     category = Author.category (BaseCollector.author c),
                     success = False, items = [], error_message = Some (str_exn e),
                     collected_at = now\<rparr>)))"
  proof
    assume h: "(\<forall>a \<in> set enabled_authors. factory a \<noteq> None) \<and>
       distinct (map name enabled_authors)"
    then have reg: "registry factory = map (\<lambda>a. (name a, the (factory a))) enabled_authors"
      unfolding reg_def by (intro registry_distinct_names) simp_all
    let ?res = "map (outcome now ?m) (map (\<lambda>a. (name a, the (factory a))) enabled_authors)"
    have r: "collect_all now settings_max_items (registry factory) max_items_per_author
            = Inr (?res, map name enabled_authors)"
      by (simp add: run reg comp_def)
    have at: "\<forall>i < length enabled_authors. \<forall>c.
             factory (enabled_authors ! i) = Some c \<longrightarrow>
               (\<forall>r. collect c ?m = Inr r \<longrightarrow> ?res ! i = r) \<and>
               (\<forall>e. collect c ?m = Inl e \<longrightarrow>
                  ?res ! i =
                    \<lparr>CollectionResult.author_name = name (enabled_authors ! i),
                     author_url = Author.url (BaseCollector.author c),
                     category = Author.category (BaseCollector.author c),
                     success = False, items = [], error_message = Some (str_exn e),
                     collected_at = now\<rparr>)"
      by (simp add: outcome_def)
    have len: "length ?res = length enabled_authors" by simp
    show "\<exists>res calls.
          collect_all now settings_max_items (registry factory) max_items_per_author
            = Inr (res, calls) \<and>
          length res = length enabled_authors \<and>
          calls = map name enabled_authors \<and>
          (\<forall>i < length enabled_authors. \<forall>c.
             factory (enabled_authors ! i) = Some c \<longrightarrow>
               (\<forall>r. collect c ?m = Inr r \<longrightarrow> res ! i = r) \<and>
               (\<forall>e. collect c ?m = Inl e \<longrightarrow>
                  res ! i =
                    \<lparr>CollectionResult.author_name = name (enabled_authors ! i),
                     author_url = Author.url (BaseCollector.author c),
                     category = Author.category (BaseCollector.author c),
                     success = False, items = [], error_message = Some (str_exn e),
                     collected_at = now\<rparr>))"
      by (intro exI [of _ ?res] exI [of _ "map name enabled_authors"] conjI)
        (fact r len refl at)+
  qed
  have per_name: "(\<forall>a \<in> set enabled_authors. factory a \<noteq> None) \<longrightarrow>
       distinct (map fst (registry factory)) \<and>
       set (map fst (registry factory)) = name ` set enabled_authors \<and>
       (\<exists>res calls.
          collect_all now settings_max_items (registry factory) max_items_per_author
            = Inr (res, calls) \<and>
          length res = card (name ` set enabled_authors))"
  proof
    assume h: "\<forall>a \<in> set enabled_authors. factory a \<noteq> None"
    have "length (map (outcome now ?m) (registry factory)) = card (name ` set enabled_authors)"
      using registry_names(3) [OF h] by (simp add: reg_def)
    with registry_names(1,2) [OF h] run [of "registry factory"]
    show "distinct (map fst (registry factory)) \<and>
       set (map fst (registry factory)) = name ` set enabled_authors \<and>
       (\<exists>res calls.
          collect_all now settings_max_items (registry factory) max_items_per_author
            = Inr (res, calls) \<and>
          length res = card (name ` set enabled_authors))"
      unfolding reg_def by blast
  qed
  let ?create = "create_collector channel_rss podcast_rss news_feed fetch html_text now"
  have total: "\<forall>a. ?create a \<noteq> None"
    using create_collector_Some [of channel_rss podcast_rss news_feed fetch html_text now]
    by fastforce
  have source: "distinct (map name enabled_authors) \<longrightarrow>
       (\<exists>res calls.
          collect_all now settings_max_items (registry ?create) max_items_per_author
            = Inr (res, calls) \<and>
          length res = length enabled_authors \<and>
          calls = map name enabled_authors \<and>
          map CollectionResult.author_name res = map name enabled_authors)"
  proof
    assume d: "distinct (map name enabled_authors)"
    have reg: "registry ?create = map (\<lambda>a. (name a, the (?create a))) enabled_authors"
      unfolding reg_def using total d by (intro registry_distinct_names) simp_all
    have own: "CollectionResult.author_name (outcome now ?m (name a, the (?create a))) = name a"
      for a
    proof -
      from total obtain c where c: "?create a = Some c" by fastforce
      from create_collector_collect [OF c, of ?m] c show ?thesis
        by (auto simp: outcome_def)
    qed
    let ?res = "map (outcome now ?m) (map (\<lambda>a. (name a, the (?create a))) enabled_authors)"
    have r: "collect_all now settings_max_items (registry ?create) max_items_per_author
            = Inr (?res, map name enabled_authors)"
      by (simp add: run reg comp_def)
    have len: "length ?res = length enabled_authors" by simp
    have names: "map CollectionResult.author_name ?res = map name enabled_authors"
      by (simp add: own comp_def)
    show "\<exists>res calls.
          collect_all now settings_max_items (registry ?create) max_items_per_author
            = Inr (res, calls) \<and>
          length res = length enabled_authors \<and>
          calls = map name enabled_authors \<and>
          map CollectionResult.author_name res = map name enabled_authors"
      by (intro exI [of _ ?res] exI [of _ "map name enabled_authors"] conjI)
        (fact r len refl names)+
  qed
  show ?thesis
    by (intro conjI) (fact registry config per_name total source)+
qed

text \<open>
  Three collectors in a registry, the second of which raises: three results in the
  order of the registry, the second one failed with the message of the exception, three
  calls. And a configuration of three authors with distinct names, the second one
  disabled: two results, for the first and the third author, in that order.
\<close>

theorem collect_all_isolation_example:
  "list_all (\<lambda>a. example_factory a \<noteq> None) (filter enabled example_authors) \<and>
   distinct (map name (filter enabled example_authors)) \<and>
   length (filter enabled example_authors) = 2 \<and>
   (\<exists>res calls.
     collect_all ''2025-11-10T12:00:00'' 10
       (initialize_collectors example_factory (get_enabled_authors example_authors) []) None
       = Inr (res, calls) \<and>
     length res = 2 \<and> calls = [''A'', ''C''] \<and>
     map CollectionResult.author_name res = [''A'', ''C'']) \<and>
   (\<exists>res calls.
     collect_all ''2025-11-10T12:00:00'' 10 example_registry None = Inr (res, calls) \<and>
     length res = 3 \<and> calls = [''A'', ''B'', ''C''] \<and>
     map CollectionResult.author_name res = [''A'', ''B'', ''C''] \<and>
     map CollectionResult.success res = [True, False, True] \<and>
     CollectionResult.error_message (res ! 1) = Some ''boom'')"
proof -
  note T = collect_all_isolation [where now = "''2025-11-10T12:00:00''"
      and settings_max_items = 10 and collectors = example_registry
      and max_items_per_author = None and authors = example_authors
      and factory = example_factory and channel_rss = no_channel
      and podcast_rss = Author.url and news_feed = Author.url and fetch = empty_feed
      and html_text = id]
  have en: "map name (filter enabled example_authors) = [''A'', ''C'']"
    "length (filter enabled example_authors) = 2"
    by (simp_all add: example_authors_def)
  have d: "distinct (map name (filter enabled example_authors))"
    by (simp add: en)
  have f: "list_all (\<lambda>a. example_factory a \<noteq> None) (filter enabled example_authors)"
    using T [THEN conjunct2, THEN conjunct2, THEN conjunct2, THEN conjunct1]
    by (simp add: example_factory_def list_all_iff)
  from T [THEN conjunct2, THEN conjunct2, THEN conjunct2, THEN conjunct2] d
  obtain res calls where
    c: "collect_all ''2025-11-10T12:00:00'' 10
          (initialize_collectors example_factory (get_enabled_authors example_authors) []) None
          = Inr (res, calls)"
      "length res = length (filter enabled example_authors)"
      "calls = map name (filter enabled example_authors)"
      "map CollectionResult.author_name res = map name (filter enabled example_authors)"
    unfolding example_factory_def by blast
  have config: "\<exists>res calls.
     collect_all ''2025-11-10T12:00:00'' 10
       (initialize_collectors example_factory (get_enabled_authors example_authors) []) None
       = Inr (res, calls) \<and>
     length res = 2 \<and> calls = [''A'', ''C''] \<and>
     map CollectionResult.author_name res = [''A'', ''C'']"
    using c by (simp add: en)
  from T [THEN conjunct1]
  obtain res calls where
    r: "collect_all ''2025-11-10T12:00:00'' 10 example_registry None = Inr (res, calls)"
      "length res = length example_registry"
      "calls = map fst example_registry"
    by blast
  have "collect_all ''2025-11-10T12:00:00'' 10 example_registry None =
      Inr ([example_result\<lparr>CollectionResult.author_name := ''A''\<rparr>,
            \<lparr>CollectionResult.author_name = ''B'', author_url = ''https://blog.example'',
             category = NEWS, success = False, items = [], error_message = Some ''boom'',
             collected_at = ''2025-11-10T12:00:00''\<rparr>,
            example_result\<lparr>CollectionResult.author_name := ''C''\<rparr>],
           [''A'', ''B'', ''C''])"
    by (simp add: collect_all_def example_registry_def CollectionResult_init_def
        example_author_def)
  with r(1) have res: "res =
      [example_result\<lparr>CollectionResult.author_name := ''A''\<rparr>,
            \<lparr>CollectionResult.author_name = ''B'', author_url = ''https://blog.example'',
             category = NEWS, success = False, items = [], error_message = Some ''boom'',
             collected_at = ''2025-11-10T12:00:00''\<rparr>,
            example_result\<lparr>CollectionResult.author_name := ''C''\<rparr>]"
    and calls: "calls = [''A'', ''B'', ''C'']"
    by simp_all
  have "length res = 3" "map CollectionResult.author_name res = [''A'', ''B'', ''C'']"
    "map CollectionResult.success res = [True, False, True]"
    "CollectionResult.error_message (res ! 1) = Some ''boom''"
    by (simp_all add: res example_result_def)
  with r(1) calls have registry: "\<exists>res calls.
     collect_all ''2025-11-10T12:00:00'' 10 example_registry None = Inr (res, calls) \<and>
     length res = 3 \<and> calls = [''A'', ''B'', ''C''] \<and>
     map CollectionResult.author_name res = [''A'', ''B'', ''C''] \<and>
     map CollectionResult.success res = [True, False, True] \<and>
     CollectionResult.error_message (res ! 1) = Some ''boom''"
    by simp
  from f d en(2) config registry show ?thesis by (intro conjI)
qed

section \<open>The video collector and the read view\<close>

subsection \<open>The video collector\<close>

text \<open>
  Claim C4 holds for the podcast and the news collector and fails for the video
  collector, which has no test for an empty list of items: on a feed whose only entry
  has no title, \<open>YouTubeCollector.collect\<close> returns a successful result without items,
  where the two other collectors return a failed result with their "no valid entry"
  message.
\<close>

theorem YouTube_collect_empty_success:
  "(\<exists>r. YouTube_collect (\<lambda>u. Inr [(example_entry ''-'')\<lparr>entry.title := None\<rparr>])
           ''2025-11-10T12:00:00'' example_video 10 = Inr r \<and>
        CollectionResult.success r \<and> CollectionResult.items r = [] \<and>
        CollectionResult.error_message r = None) \<and>
   (\<exists>r. News_collect (\<lambda>u. Inr [(example_entry ''-'')\<lparr>entry.title := None\<rparr>]) (\<lambda>s. s)
           ''2025-11-10T12:00:00'' example_news 10 = Inr r \<and>
        \<not> CollectionResult.success r \<and> CollectionResult.items r = [] \<and>
        CollectionResult.error_message r = Some msg_news_no_valid_items) \<and>
   (\<exists>r. Podcast_collect (\<lambda>u. Inr [(example_entry ''-'')\<lparr>entry.title := None\<rparr>]) (\<lambda>s. s)
           ''2025-11-10T12:00:00'' example_podcast 10 = Inr r \<and>
        \<not> CollectionResult.success r \<and> CollectionResult.items r = [] \<and>
        CollectionResult.error_message r = Some msg_podcast_no_valid_items)"
proof -
  let ?e = "(example_entry ''-'')\<lparr>entry.title := None\<rparr>"
  have y: "YouTube_parse_entry ''2025-11-10T12:00:00'' example_video ?e = Inr None"
    by (simp add: YouTube_parse_entry_def example_entry_def get_or_empty_def strip_def Let_def
        post_init_def)
  have n: "News_parse_entry (\<lambda>s. s) ''2025-11-10T12:00:00'' example_news ?e = Inr None"
    by (simp add: News_parse_entry_def example_entry_def get_or_empty_def strip_def Let_def)
  have p: "Podcast_parse_entry (\<lambda>s. s) ''2025-11-10T12:00:00'' example_podcast ?e = Inr None"
    by (simp add: Podcast_parse_entry_def example_entry_def get_or_empty_def strip_def Let_def)
  show ?thesis
    by (simp add: YouTube_collect_cases News_collect_cases Podcast_collect_cases
        example_video_def create_success_result_eq create_error_result_eq slice_to_def
        mapped_items_def y [unfolded example_video_def] n p)
qed

text \<open>
  Claim C7 holds for the podcast and the news collector and fails for the video
  collector, which takes the summary of an entry as it is, stripped of surrounding
  whitespace only: no other field is tried, no HTML is removed and nothing is cut. A
  summary that is markup stays markup, and a summary of 600 characters gives a
  description of 600 characters, where the news collector cuts it to 500 and appends
  the ellipsis.
\<close>

theorem YouTube_description_policy:
  "(\<exists>item. YouTube_parse_entry ''2025-11-10T12:00:00'' example_video
             ((example_entry ''Talk'')\<lparr>summary := Some ''<p>Hi</p>''\<rparr>) = Inr (Some item) \<and>
           ContentItem_rec.description item = ''<p>Hi</p>'') \<and>
   (\<exists>item. YouTube_parse_entry ''2025-11-10T12:00:00'' example_video
             ((example_entry ''Talk'')\<lparr>summary := None, entry.description := Some ''text''\<rparr>)
               = Inr (Some item) \<and>
           ContentItem_rec.description item = []) \<and>
   (\<exists>item. YouTube_parse_entry ''2025-11-10T12:00:00'' example_video
             ((example_entry ''Talk'')\<lparr>summary := Some (replicate 600 CHR ''a'')\<rparr>)
               = Inr (Some item) \<and>
           length (ContentItem_rec.description item) = 600) \<and>
   (\<exists>item. News_parse_entry (\<lambda>s. s) ''2025-11-10T12:00:00'' example_news
             ((example_entry ''Talk'')\<lparr>summary := Some (replicate 600 CHR ''a'')\<rparr>)
               = Inr (Some item) \<and>
           ContentItem_rec.description item = replicate 500 CHR ''a'' @ ''...'')"
proof -
  have sp: "\<not> isspace CHR ''a''" by (simp add: isspace_def)
  have long: "strip (replicate 600 CHR ''a'') = replicate 600 CHR ''a''"
    by (simp add: strip_def sp)
  have t: "strip ''Talk'' = ''Talk''" "strip ''<p>Hi</p>'' = ''<p>Hi</p>''"
    "strip ''https://blog.example/post'' = ''https://blog.example/post''"
    "strip ''Author'' \<noteq> []"
    by (simp_all add: strip_def isspace_def)
  have u: "startswith_http ''https://blog.example/post''"
    by (simp add: startswith_http_def)
  show ?thesis
    by (simp add: YouTube_parse_entry_def News_parse_entry_def example_entry_def
        get_or_empty_def Let_def post_init_def example_video_def example_news_def
        example_author_def with_category_def long t u)
qed

subsection \<open>The read view\<close>

lemma py_less_None [simp]:
  "py_less PNone b = Inl (TypeError msg_not_comparable)"
  "py_less a PNone = Inl (TypeError msg_not_comparable)"
  by (cases b; simp add: py_less_def; cases a; simp add: py_less_def split: option.split)+

lemma insert_desc_length:
  "insert_desc key x ys = Inr zs \<Longrightarrow> length zs = Suc (length ys)"
proof (induction ys arbitrary: zs)
  case Nil
  then show ?case by auto
next
  case (Cons y ys)
  then show ?case
    by (auto split: sum.splits bool.splits)
qed

lemma sort_reverse_length:
  "sort_reverse key xs = Inr ys \<Longrightarrow> length ys = length xs"
proof (induction xs arbitrary: ys)
  case Nil
  then show ?case by simp
next
  case (Cons x xs)
  then show ?case
    by (auto split: sum.splits dest: insert_desc_length)
qed

lemma py_less_error: "py_less a b = Inl e \<Longrightarrow> e = TypeError msg_not_comparable"
  by (auto simp: py_less_def split: pyval.splits option.splits prod.splits)

lemma insert_desc_error:
  "insert_desc key x ys = Inl e \<Longrightarrow> e = TypeError msg_not_comparable"
proof (induction ys)
  case Nil
  then show ?case by simp
next
  case (Cons y ys)
  then show ?case
    by (auto split: sum.splits bool.splits dest: py_less_error)
qed

lemma sort_reverse_error:
  "sort_reverse key xs = Inl e \<Longrightarrow> e = TypeError msg_not_comparable"
proof (induction xs)
  case Nil
  then show ?case by simp
next
  case (Cons x xs)
  then show ?case
    by (auto split: sum.splits dest: insert_desc_error)
qed

lemma insert_desc_Inr_keys:
  assumes "insert_desc key x (y # ys) = Inr zs"
  shows "key x \<noteq> PNone \<and> key y \<noteq> PNone"
proof -
  from assms obtain b where "py_less (key x) (key y) = Inr b"
    by (auto split: sum.splits)
  then show ?thesis
    by (cases "key x = PNone"; cases "key y = PNone") auto
qed

lemma sort_reverse_Inr_keys:
  assumes "sort_reverse key xs = Inr ys" and "2 \<le> length xs"
  shows "\<forall>x \<in> set xs. key x \<noteq> PNone"
  using assms
proof (induction xs arbitrary: ys)
  case Nil
  then show ?case by simp
next
  case (Cons x xs)
  from Cons.prems(1) obtain ws where ws: "sort_reverse key xs = Inr ws"
    and ins: "insert_desc key x ws = Inr ys"
    by (auto split: sum.splits)
  from Cons.prems(2) have ne: "xs \<noteq> []" by auto
  from sort_reverse_length [OF ws] ne obtain w ws' where w: "ws = w # ws'"
    by (cases ws) auto
  from insert_desc_Inr_keys [OF ins [unfolded w]]
  have kx: "key x \<noteq> PNone" and kw: "key w \<noteq> PNone" by simp_all
  have "\<forall>y \<in> set xs. key y \<noteq> PNone"
  proof (cases "2 \<le> length xs")
    case True
    with Cons.IH [OF ws] show ?thesis by blast
  next
    case False
    with ne obtain y where y: "xs = [y]"
      by (cases xs; cases "tl xs") auto
    with ws w have "w = y" by simp
    with kw y show ?thesis by simp
  qed
  with kx show ?case by simp
qed

text \<open>
  A list of two or more items of which one has the date \<open>None\<close> is not sorted: the sort
  ends with a \<open>TypeError\<close>.
\<close>

lemma sort_reverse_None:
  assumes "2 \<le> length xs" and "\<exists>x \<in> set xs. key x = PNone"
  shows "sort_reverse key xs = Inl (TypeError msg_not_comparable)"
proof (cases "sort_reverse key xs")
  case (Inl e)
  with sort_reverse_error [OF Inl] show ?thesis by simp
next
  case (Inr ys)
  from sort_reverse_Inr_keys [OF Inr assms(1)] assms(2) show ?thesis by blast
qed

text \<open>Annotating an item changes the key \<open>formatted_date\<close> and no other.\<close>

lemma annotate_keeps:
  "k \<noteq> ''formatted_date'' \<Longrightarrow> map_of (annotate label item) k = map_of item k"
  by (simp add: annotate_def update_conv')

text \<open>Annotating an item leaves its date key as it is.\<close>

lemma date_key_annotate: "date_key (annotate label item) = date_key item"
  by (simp add: date_key_def dict_get_def annotate_keeps)

text \<open>
  When every key is a string, the sort returns the items rearranged, in descending order
  of the keys.
\<close>

lemma insert_desc_strings:
  assumes "\<forall>y \<in> set ys. \<exists>s. key y = PStr s" and "\<exists>s. key x = PStr s"
  shows "\<exists>zs. insert_desc key x ys = Inr zs \<and>
      (\<forall>a. count_list zs a = count_list (x # ys) a) \<and>
      (sorted_wrt (\<lambda>a b. str_of (key b) \<le> str_of (key a)) ys \<longrightarrow>
       sorted_wrt (\<lambda>a b. str_of (key b) \<le> str_of (key a)) zs)"
  using assms
proof (induction ys)
  case Nil
  show ?case by simp
next
  case (Cons y ys)
  from Cons.prems obtain s t where s: "key x = PStr s" and t: "key y = PStr t" by auto
  show ?case
  proof (cases "s < t")
    case False
    then have ins: "insert_desc key x (y # ys) = Inr (x # y # ys)"
      by (simp add: s t py_less_def)
    show ?thesis
      unfolding ins using s t False
      by (auto simp: not_less) 
  next
    case True
    from Cons.IH Cons.prems obtain zs where zs: "insert_desc key x ys = Inr zs"
      and c: "\<forall>a. count_list zs a = count_list (x # ys) a"
      and srt: "sorted_wrt (\<lambda>a b. str_of (key b) \<le> str_of (key a)) ys \<longrightarrow>
       sorted_wrt (\<lambda>a b. str_of (key b) \<le> str_of (key a)) zs"
      by auto
    have ins: "insert_desc key x (y # ys) = Inr (y # zs)"
      using True zs by (simp add: s t py_less_def)
    have mem: "set zs = insert x (set ys)"
    proof -
      have "a \<in> set zs \<longleftrightarrow> a \<in> insert x (set ys)" for a
        using c [rule_format, of a] count_list_0_iff [of zs a] count_list_0_iff [of "x # ys" a]
        by (metis list.simps(15))
      then show ?thesis by blast
    qed
    show ?thesis
      unfolding ins using c srt mem s t True
      by auto
  qed
qed

lemma sort_reverse_strings:
  assumes "\<forall>x \<in> set xs. \<exists>s. key x = PStr s"
  shows "\<exists>ys. sort_reverse key xs = Inr ys \<and>
      (\<forall>a. count_list ys a = count_list xs a) \<and>
      sorted_wrt (\<lambda>a b. str_of (key b) \<le> str_of (key a)) ys"
  using assms
proof (induction xs)
  case Nil
  show ?case by simp
next
  case (Cons x xs)
  from Cons obtain ws where ws: "sort_reverse key xs = Inr ws"
    and c: "\<forall>a. count_list ws a = count_list xs a"
    and srt: "sorted_wrt (\<lambda>a b. str_of (key b) \<le> str_of (key a)) ws"
    by auto
  have "set ws = set xs"
  proof -
    have "a \<in> set ws \<longleftrightarrow> a \<in> set xs" for a
      using c [rule_format, of a] count_list_0_iff [of ws a] count_list_0_iff [of xs a]
      by metis
    then show ?thesis by blast
  qed
  with Cons.prems have "\<forall>y \<in> set ws. \<exists>s. key y = PStr s" "\<exists>s. key x = PStr s"
    by simp_all
  from insert_desc_strings [OF this] srt obtain zs where
    "insert_desc key x ws = Inr zs" "\<forall>a. count_list zs a = count_list (x # ws) a"
    "sorted_wrt (\<lambda>a b. str_of (key b) \<le> str_of (key a)) zs"
    by blast
  with ws c show ?case by simp
qed

text \<open>
  The view of a store whose dates are strings or absent keys lists the items of the
  successful results newest first; an item without the key has the key \<open>''\<close>, below
  every date. The view of a store with two items or more, one of them with the date
  \<open>None\<close>, is a \<open>TypeError\<close>.
\<close>

lemma api_items_sorted:
  assumes "fst (load_latest_data collection_files) = Some data"
    and "\<forall>r \<in> set (results data). result_doc.success r \<longrightarrow>
           (\<forall>item \<in> set (result_doc.items r). \<exists>s. date_key item = PStr s)"
  shows "\<exists>sorted_items. api_items label collection_files = Inr (sorted_items, length sorted_items) \<and>
      (\<forall>a. count_list sorted_items a = count_list (all_items label data) a) \<and>
      sorted_wrt (\<lambda>a b. str_of (date_key b) \<le> str_of (date_key a)) sorted_items"
proof -
  have "\<forall>x \<in> set (all_items label data). \<exists>s. date_key x = PStr s"
    using assms(2) by (auto simp: all_items_def date_key_annotate split: if_splits)
  from sort_reverse_strings [OF this] assms(1) show ?thesis
    by (auto simp: api_items_def)
qed

lemma api_items_TypeError:
  assumes "fst (load_latest_data collection_files) = Some data"
    and "2 \<le> length (all_items label data)"
    and "\<exists>r \<in> set (results data). result_doc.success r \<and>
           (\<exists>item \<in> set (result_doc.items r). map_of item ''publish_date'' = Some PNone)"
  shows "api_items label collection_files = Inl (TypeError msg_not_comparable)"
proof -
  from assms(3) obtain r item where r: "r \<in> set (results data)" "result_doc.success r"
    and i: "item \<in> set (result_doc.items r)" "map_of item ''publish_date'' = Some PNone"
    by blast
  have "annotate label item \<in> set (all_items label data)"
    using r i(1) by (auto simp: all_items_def)
  moreover have "date_key (annotate label item) = PNone"
    using i(2) by (simp add: date_key_annotate) (simp add: date_key_def dict_get_def)
  ultimately have "\<exists>x \<in> set (all_items label data). date_key x = PNone" by blast
  from sort_reverse_None [OF assms(2) this] assms(1) show ?thesis
    by (simp add: api_items_def)
qed

text \<open>
  Claim C9 fails on the documents that the program itself writes. \<open>to_dict\<close> writes the
  key \<open>publish_date\<close> for every item, with \<open>None\<close> for an item without date, so the
  default \<open>''\<close> of the sort key, which would put such an item last, is never taken: the
  key is \<open>None\<close>, and comparing it with the date of another item raises a \<open>TypeError\<close>
  out of the view. Were the key absent, the items would come out newest first with the
  undated one last, each with its own \<open>collected_at\<close>.
\<close>

theorem api_items_null_date:
  "api_items (\<lambda>s. s) (view_store [dated_item ''2025-11-10T10:00:00'', null_date_item])
     = Inl (TypeError msg_not_comparable) \<and>
   api_items (\<lambda>s. s)
       (view_store [dated_item ''2025-11-09T10:00:00'', no_date_item,
                    dated_item ''2025-11-10T10:00:00''])
     = Inr ([dated_item ''2025-11-10T10:00:00'' @ [(''formatted_date'', PStr ''2025-11-10T10:00:00'')],
             dated_item ''2025-11-09T10:00:00'' @ [(''formatted_date'', PStr ''2025-11-09T10:00:00'')],
             no_date_item @ [(''formatted_date'', PStr msg_unknown_time)]], 3)"
proof -
  note view = load_latest_data_eq merged_with_Nil scan_picks.simps(1)
  have 1: "api_items (\<lambda>s. s) (view_store [dated_item ''2025-11-10T10:00:00'', null_date_item])
     = Inl (TypeError msg_not_comparable)"
    by (simp add: api_items_def view view_store_def all_items_def annotate_def date_key_def
        dict_get_def dated_item_def null_date_item_def format_publish_date_def)
  have 2: "api_items (\<lambda>s. s)
       (view_store [dated_item ''2025-11-09T10:00:00'', no_date_item,
                    dated_item ''2025-11-10T10:00:00''])
     = Inr ([dated_item ''2025-11-10T10:00:00'' @ [(''formatted_date'', PStr ''2025-11-10T10:00:00'')],
             dated_item ''2025-11-09T10:00:00'' @ [(''formatted_date'', PStr ''2025-11-09T10:00:00'')],
             no_date_item @ [(''formatted_date'', PStr msg_unknown_time)]], 3)"
    by (simp add: api_items_def view view_store_def all_items_def annotate_def date_key_def
        dict_get_def dated_item_def no_date_item_def format_publish_date_def py_less_def)
  from 1 2 show ?thesis by simp
qed

end
